theory Spec2Isabelle
  imports Main "HOL-Library.Sublist"
begin

text \<open>
  A model of \<^verbatim>\<open>query-k8s-container-image-history\<close>: the package
  \<^verbatim>\<open>internal/docker-image-history\<close> (\<^verbatim>\<open>query-cluster.go\<close> and the types it declares)
  and \<^verbatim>\<open>parseFlags\<close> of \<^verbatim>\<open>cmd/main.go\<close>. The \<^verbatim>\<open>main.go\<close> at the root is an earlier copy
  of the same functions, with the list of regions fixed in a variable instead of a
  field of the configuration. The clients of AWS, Docker and Kubernetes, the clock and
  the file system are an environment that the functions take; what the program changes
  outside its memory is a world that they return.
\<close>

section \<open>Strings\<close>

text \<open>
  Go strings are byte sequences; \<^typ>\<open>string\<close> is a list of 8-bit characters.
  \<^verbatim>\<open>strings.ToLower\<close> is modelled on its ASCII path (\<^verbatim>\<open>c += 'a' - 'A'\<close> for
  \<^verbatim>\<open>'A' <= c <= 'Z'\<close>); the image references, layer commands and keywords the
  program sees are ASCII text. Bytes from 0x80 on are left as they are.
\<close>

definition lowerByte :: "char \<Rightarrow> char" where
  "lowerByte c =
     (let n = (of_char c :: nat) in if 65 \<le> n \<and> n \<le> 90 then char_of (n + 32) else c)"

definition ToLower :: "string \<Rightarrow> string" where
  "ToLower s = map lowerByte s"

text \<open>\<^verbatim>\<open>strings.Contains(s, substr)\<close>: \<open>substr\<close> occurs in \<open>s\<close> as a contiguous run.\<close>

fun Contains :: "string \<Rightarrow> string \<Rightarrow> bool" where
  "Contains [] substr = (substr = [])"
| "Contains (c # s) substr = (prefix substr (c # s) \<or> Contains s substr)"

text \<open>
  \<^verbatim>\<open>strings.Split(s, sep)\<close> for a separator of one byte, which is how both call sites
  use it (\<^verbatim>\<open>","\<close> and \<^verbatim>\<open>":"\<close>): the fields between the separators, one more than there
  are separators, so the empty string splits into one empty field.
\<close>

fun Split :: "string \<Rightarrow> char \<Rightarrow> string list" where
  "Split [] sep = [[]]"
| "Split (c # s) sep =
     (if c = sep then [] # Split s sep
      else (case Split s sep of [] \<Rightarrow> [[c]] | f # fs \<Rightarrow> (c # f) # fs))"

section \<open>Data model\<close>

record podDetails =
  podName :: string
  containerName :: string
  namespace :: string

text \<open>
  \<^verbatim>\<open>matchedKeywords\<close> is a \<^verbatim>\<open>map[string]int\<close>: a key that was never written is
  absent, and reading it gives 0 (\<open>lookupCount\<close>). Go's \<^verbatim>\<open>int\<close> has 64 bits; a counter
  is bumped once per layer and keyword, so it stays far from the bound and is an
  unbounded \<^typ>\<open>int\<close> here.
\<close>

record offendingDockerImage =
  matchFound :: bool
  imageRef :: string
  matchedKeywords :: "string \<rightharpoonup> int"

definition lookupCount :: "(string \<rightharpoonup> int) \<Rightarrow> string \<Rightarrow> int" where
  "lookupCount m k = (case m k of None \<Rightarrow> 0 | Some n \<Rightarrow> n)"

text \<open>\<^verbatim>\<open>m[k]++\<close>\<close>

definition increment :: "(string \<rightharpoonup> int) \<Rightarrow> string \<Rightarrow> (string \<rightharpoonup> int)" where
  "increment m k = m(k \<mapsto> lookupCount m k + 1)"

text \<open>
  \<^verbatim>\<open>Event\<close>, one line of the pull's progress output. Only \<^verbatim>\<open>Status\<close> is ever read.
\<close>

record Event =
  Status :: string
  Error :: string
  Progress :: string
  Current :: int
  Total :: int

text \<open>
  \<^verbatim>\<open>Config\<close>. The two client handles (\<^verbatim>\<open>dockerClient\<close>, \<^verbatim>\<open>k8sClient\<close>) are not
  fields here: what the clients answer is the environment \<open>env\<close> below.
\<close>

record Config =
  dockerImageKeyWords :: "string list"
  dockerImages :: "string \<rightharpoonup> podDetails list"
  offendingDockerImages :: "offendingDockerImage list"
  ecrCredentials :: "string \<rightharpoonup> string"
  ecrRegions :: "string list"
  clusterK8sContextName :: string
  imagesAccountAWSProfileName :: string

text \<open>
  Every \<^verbatim>\<open>fmt.Errorf\<close> the package returns, with the values it formats, and the two
  run-time panics the code can raise (an index out of range carries the index and the
  length, as Go reports them). A panic is not an error value: nothing recovers it and
  the process dies.
\<close>

datatype error =
    ErrLoadingAWSConfig string
  | ErrGettingECRAuthToken string
  | ErrDecodingECRAuthToken string
  | ErrMarshallingECRCreds string
  | ErrCreatingDockerClient string
  | ErrLoadingK8sConfig string
  | ErrCreatingK8sClientSet string
  | ErrQueryingPods string
  | ErrQueryingImageHistory string string
  | ErrUnsupportedECRRegion "string list"
  | ErrPullingImage string string
  | ErrTimedOut string
  | ErrDecodingPullOutput string
  | ErrCleaningUp string string
  | ErrOpeningFile string string
  | ErrWritingResults string string
  | PanicIndexOutOfRange nat nat
  | PanicNilDereference

fun isPanic :: "error \<Rightarrow> bool" where
  "isPanic (PanicIndexOutOfRange i n) = True"
| "isPanic PanicNilDereference = True"
| "isPanic _ = False"

section \<open>The environment\<close>

text \<open>The pods of the cluster, as the listing returns them.\<close>

record container =
  container_Name :: string
  container_Image :: string

record pod =
  pod_Name :: string
  pod_Namespace :: string
  pod_Containers :: "container list"

text \<open>A layer of an image's history; the program reads \<^verbatim>\<open>CreatedBy\<close> only.\<close>

record HistoryResponseItem =
  CreatedBy :: string

text \<open>
  What one call of \<^verbatim>\<open>d.Decode(&event)\<close> finds next in the pull's output. A JSON object
  carries the fields it names (\<open>None\<close>: the key is absent); the JSON literal
  \<^verbatim>\<open>null\<close> is \<open>DecNull\<close>; \<open>DecError\<close> is any error but \<^verbatim>\<open>io.EOF\<close> (a syntax error, a
  value of the wrong type, a broken read). The end of the list is \<^verbatim>\<open>io.EOF\<close>, which
  the decoder then returns on every further call.
\<close>

record jsonEvent =
  jStatus :: "string option"
  jError :: "string option"
  jProgress :: "string option"
  jCurrent :: "int option"
  jTotal :: "int option"

datatype decoded = DecObject jsonEvent | DecNull | DecError string

text \<open>What the program prints on standard output (the \<^verbatim>\<open>log\<close> lines are left out).\<close>

datatype printed =
    PullingImage nat nat string
  | Found offendingDockerImage
  | NoImagesMatched

text \<open>
  The answers of the outside world: the AWS, Docker and Kubernetes clients, the
  libraries' codecs, the clock and the file system's faults. A field of type
  \<open>string option\<close> is an error (\<open>Some\<close> its text) or none;
  \<open>WriteError e n\<close> is the error of the \<open>n\<close>-th \<^verbatim>\<open>WriteString\<close> call of the run.
  \<open>Now e image k\<close> is what the \<open>k\<close>-th call of \<^verbatim>\<open>time.Now()\<close> returns while \<open>image\<close>
  is pulled, in nanoseconds. \<open>RangeImages\<close> and \<open>RangeReport\<close> are the orders in which
  the two \<^verbatim>\<open>range\<close> loops over \<^verbatim>\<open>dockerImages\<close> visit the keys: Go leaves the order
  of a map's keys to the run time. \<open>FormatKeywords\<close> is \<^verbatim>\<open>%v\<close> of the keyword counts.
\<close>

record env =
  LoadDefaultConfig :: "string \<Rightarrow> string \<Rightarrow> string option"
  GetAuthorizationToken :: "string \<Rightarrow> string \<Rightarrow> string + string option list"
  Base64Decode :: "string \<Rightarrow> string + string"
  Base64Encode :: "string \<Rightarrow> string"
  JsonMarshal :: "(string \<times> string) list \<Rightarrow> string + string"
  NewDockerClient :: "string option"
  BuildK8sConfig :: "string \<Rightarrow> string option"
  NewK8sClientSet :: "string option"
  ListPods :: "string + pod list"
  ImagePull :: "string \<Rightarrow> string \<Rightarrow> string + decoded list"
  Now :: "string \<Rightarrow> nat \<Rightarrow> int"
  ImageHistory :: "string \<Rightarrow> string + HistoryResponseItem list"
  ImageRemove :: "string \<Rightarrow> string option"
  OpenFile :: "string \<Rightarrow> string option"
  WriteError :: "nat \<Rightarrow> string option"
  FormatKeywords :: "(string \<rightharpoonup> int) \<Rightarrow> string"
  OffendingTimestamp :: string
  NonECRTimestamp :: string
  RangeImages :: "string list"
  RangeReport :: "string list"

text \<open>
  What the program changes outside its own memory: the files, standard output, and
  the calls it has made to the Docker daemon (a pull with the image and the
  \<^verbatim>\<open>RegistryAuth\<close> it passed, a removal with the image). \<open>writeCount\<close> counts the
  \<^verbatim>\<open>WriteString\<close> calls so far; the environment says which of them fail.
\<close>

record world =
  files :: "string \<rightharpoonup> string"
  stdout :: "printed list"
  pullCalls :: "(string \<times> string) list"
  removeCalls :: "string list"
  writeCount :: nat

definition printLine :: "printed \<Rightarrow> world \<Rightarrow> world" where
  "printLine l w = w\<lparr>stdout := stdout w @ [l]\<rparr>"

section \<open>checkImageHistoryForKeyWords\<close>

text \<open>The inner loop: the keywords against one layer's \<^verbatim>\<open>CreatedBy\<close>.\<close>

fun keywordLoop ::
  "string \<Rightarrow> string \<Rightarrow> string list \<Rightarrow> offendingDockerImage \<times> world \<Rightarrow> offendingDockerImage \<times> world"
where
  "keywordLoop ref createdBy [] st = st"
| "keywordLoop ref createdBy (keyword # ks) (result, w) =
     keywordLoop ref createdBy ks
       (if Contains (ToLower createdBy) (ToLower keyword) then
          (let result' = result\<lparr>matchFound := True, imageRef := ref,
                 matchedKeywords := increment (matchedKeywords result) keyword\<rparr>
           in (result', printLine (Found result') w))
        else (result, w))"

fun historyLoop ::
  "string \<Rightarrow> string list \<Rightarrow> HistoryResponseItem list \<Rightarrow> offendingDockerImage \<times> world
     \<Rightarrow> offendingDockerImage \<times> world"
where
  "historyLoop ref kws [] st = st"
| "historyLoop ref kws (h # hs) st = historyLoop ref kws hs (keywordLoop ref (CreatedBy h) kws st)"

definition checkImageHistoryForKeyWords ::
  "env \<Rightarrow> Config \<Rightarrow> string \<Rightarrow> world \<Rightarrow> (error + offendingDockerImage) \<times> world"
where
  "checkImageHistoryForKeyWords e c ref w =
     (let result = \<lparr>matchFound = False, imageRef = [], matchedKeywords = Map.empty\<rparr> in
      case ImageHistory e ref of
        Inl err \<Rightarrow> (Inl (ErrQueryingImageHistory ref err), w)
      | Inr history \<Rightarrow>
          (case historyLoop ref (dockerImageKeyWords c) history (result, w) of
             (result', w') \<Rightarrow> (Inr result', w')))"

text \<open>The test the loop applies to a keyword and a layer.\<close>

definition matchesLayer :: "string \<Rightarrow> HistoryResponseItem \<Rightarrow> bool" where
  "matchesLayer keyword h = Contains (ToLower (CreatedBy h)) (ToLower keyword)"

section \<open>queryAllContainerImageRefsInCluster\<close>

fun containerLoop ::
  "pod \<Rightarrow> container list \<Rightarrow> (string \<rightharpoonup> podDetails list) \<Rightarrow> (string \<rightharpoonup> podDetails list)"
where
  "containerLoop p [] m = m"
| "containerLoop p (ct # cts) m =
     containerLoop p cts
       (let pd = \<lparr>podName = pod_Name p, containerName = container_Name ct,
                   namespace = pod_Namespace p\<rparr>
        in m(container_Image ct \<mapsto>
               (case m (container_Image ct) of None \<Rightarrow> [] | Some ds \<Rightarrow> ds) @ [pd]))"

fun podLoop :: "pod list \<Rightarrow> (string \<rightharpoonup> podDetails list) \<Rightarrow> (string \<rightharpoonup> podDetails list)" where
  "podLoop [] m = m"
| "podLoop (p # ps) m = podLoop ps (containerLoop p (pod_Containers p) m)"

definition queryAllContainerImageRefsInCluster :: "env \<Rightarrow> Config \<Rightarrow> error option \<times> Config" where
  "queryAllContainerImageRefsInCluster e c =
     (case ListPods e of
        Inl err \<Rightarrow> (Some (ErrQueryingPods err), c)
      | Inr pods \<Rightarrow> (None, c\<lparr>dockerImages := podLoop pods (dockerImages c)\<rparr>))"

section \<open>pullImage\<close>

text \<open>\<^verbatim>\<open>fmt.Sprintf("dkr.ecr.%s.amazonaws.com", region)\<close>\<close>

definition ecrHost :: "string \<Rightarrow> string" where
  "ecrHost region = ''dkr.ecr.'' @ region @ ''.amazonaws.com''"

text \<open>
  The loop over the configured regions: it keeps \<^verbatim>\<open>pullOptions.RegistryAuth\<close> and
  \<^verbatim>\<open>foundRegion\<close>, and does not stop at a match. Reading the credential of a region
  that the map does not hold gives the empty string.
\<close>

fun regionLoop :: "Config \<Rightarrow> string \<Rightarrow> string list \<Rightarrow> string \<times> bool \<Rightarrow> string \<times> bool" where
  "regionLoop c ref [] st = st"
| "regionLoop c ref (region # rs) (auth, foundRegion) =
     regionLoop c ref rs
       (if Contains ref (ecrHost region)
        then ((case ecrCredentials c region of None \<Rightarrow> [] | Some cred \<Rightarrow> cred), True)
        else (auth, foundRegion))"

text \<open>The first part of \<^verbatim>\<open>pullImage\<close>: the \<^verbatim>\<open>RegistryAuth\<close> of the pull, or the error.\<close>

definition pullOptions :: "Config \<Rightarrow> string \<Rightarrow> error + string" where
  "pullOptions c ref =
     (if Contains ref ''amazonaws.com'' then
        (case regionLoop c ref (ecrRegions c) ([], False) of
           (auth, foundRegion) \<Rightarrow>
             if \<not> foundRegion then Inl (ErrUnsupportedECRRegion (ecrRegions c)) else Inr auth)
      else Inr [])"

definition terminalStatus :: "string \<Rightarrow> bool" where
  "terminalStatus s \<longleftrightarrow> Contains s ''Downloaded newer image'' \<or> Contains s ''Image is up to date''"

text \<open>
  Decoding a JSON object through \<^verbatim>\<open>&event\<close>: a nil \<^verbatim>\<open>event\<close> is allocated with zero
  fields, an \<^verbatim>\<open>event\<close> that is there is written in place, and a field whose key the
  object does not name keeps its value.
\<close>

definition decodeInto :: "jsonEvent \<Rightarrow> Event option \<Rightarrow> Event" where
  "decodeInto j event =
     (let old = (case event of
                   None \<Rightarrow> \<lparr>Status = [], Error = [], Progress = [], Current = 0, Total = 0\<rparr>
                 | Some ev \<Rightarrow> ev)
      in \<lparr>Status = (case jStatus j of None \<Rightarrow> Status old | Some s \<Rightarrow> s),
          Error = (case jError j of None \<Rightarrow> Error old | Some s \<Rightarrow> s),
          Progress = (case jProgress j of None \<Rightarrow> Progress old | Some s \<Rightarrow> s),
          Current = (case jCurrent j of None \<Rightarrow> Current old | Some n \<Rightarrow> n),
          Total = (case jTotal j of None \<Rightarrow> Total old | Some n \<Rightarrow> n)\<rparr>)"

datatype decodeError = EOF | DecodeFailed string

text \<open>
  \<^verbatim>\<open>d.Decode(&event)\<close>: the error, the \<^verbatim>\<open>event\<close> pointer after the call (\<open>None\<close> is
  nil) and the rest of the input. The literal \<^verbatim>\<open>null\<close> sets the pointer to nil.
\<close>

fun Decode :: "decoded list \<Rightarrow> Event option \<Rightarrow> decodeError option \<times> Event option \<times> decoded list" where
  "Decode [] event = (Some EOF, event, [])"
| "Decode (DecObject j # rest) event = (None, Some (decodeInto j event), rest)"
| "Decode (DecNull # rest) event = (None, None, rest)"
| "Decode (DecError msg # rest) event = (Some (DecodeFailed msg), event, rest)"

text \<open>
  The \<^verbatim>\<open>for\<close> loop of \<^verbatim>\<open>pullImage\<close>. \<open>now k\<close> is the clock at the \<open>k\<close>-th call of
  \<^verbatim>\<open>time.Now()\<close>. The result is \<open>None\<close> when the loop never returns, \<open>Some None\<close>
  when it returns nil. \<^verbatim>\<open>event.Status\<close> on a nil \<^verbatim>\<open>event\<close> is the panic.
\<close>

partial_function (option) pullLoop ::
  "(nat \<Rightarrow> int) \<Rightarrow> int \<Rightarrow> string \<Rightarrow> nat \<Rightarrow> decoded list \<Rightarrow> Event option \<Rightarrow> error option option"
where
  "pullLoop now timeout ref k ds event =
     (if timeout < now k then Some (Some (ErrTimedOut ref))
      else (case Decode ds event of
              (Some (DecodeFailed msg), event', ds') \<Rightarrow> Some (Some (ErrDecodingPullOutput msg))
            | (_, None, ds') \<Rightarrow> Some (Some PanicNilDereference)
            | (_, Some ev, ds') \<Rightarrow>
                if terminalStatus (Status ev) then Some None
                else pullLoop now timeout ref (Suc k) ds' (Some ev)))"

text \<open>\<^verbatim>\<open>time.Minute * 10\<close>, in nanoseconds.\<close>

definition tenMinutes :: int where
  "tenMinutes = 10 * 60 * 1000000000"

definition pullImage :: "env \<Rightarrow> Config \<Rightarrow> string \<Rightarrow> world \<Rightarrow> (error option \<times> world) option" where
  "pullImage e c ref w =
     (case pullOptions c ref of
        Inl err \<Rightarrow> Some (Some err, w)
      | Inr auth \<Rightarrow>
          (let w' = w\<lparr>pullCalls := pullCalls w @ [(ref, auth)]\<rparr> in
           case ImagePull e ref auth of
             Inl err \<Rightarrow> Some (Some (ErrPullingImage ref err), w')
           | Inr events \<Rightarrow>
               (case pullLoop (Now e ref) (Now e ref 0 + tenMinutes) ref 1 events None of
                  None \<Rightarrow> None
                | Some r \<Rightarrow> Some (r, w'))))"

section \<open>cleanupImage\<close>

definition cleanupImage :: "env \<Rightarrow> string \<Rightarrow> world \<Rightarrow> error option \<times> world" where
  "cleanupImage e ref w =
     (let w' = w\<lparr>removeCalls := removeCalls w @ [ref]\<rparr> in
      case ImageRemove e ref of
        Some err \<Rightarrow> (Some (ErrCleaningUp ref err), w')
      | None \<Rightarrow> (None, w'))"

section \<open>The report files\<close>

text \<open>
  \<^verbatim>\<open>os.OpenFile(path, os.O_APPEND|os.O_CREATE|os.O_WRONLY, 0644)\<close> when it succeeds: the
  file is there afterwards, with the content it had.
\<close>

definition openAppend :: "string \<Rightarrow> world \<Rightarrow> world" where
  "openAppend path w =
     w\<lparr>files := (files w)(path \<mapsto> (case files w path of None \<Rightarrow> [] | Some s \<Rightarrow> s))\<rparr>"

text \<open>\<^verbatim>\<open>f.WriteString(s)\<close>: the error of the call, and the world after it.\<close>

definition WriteString :: "env \<Rightarrow> string \<Rightarrow> string \<Rightarrow> world \<Rightarrow> string option \<times> world" where
  "WriteString e path s w =
     (case WriteError e (writeCount w) of
        Some err \<Rightarrow> (Some err, w\<lparr>writeCount := Suc (writeCount w)\<rparr>)
      | None \<Rightarrow>
          (None, w\<lparr>files := (files w)(path \<mapsto> (case files w path of None \<Rightarrow> [] | Some t \<Rightarrow> t) @ s),
                   writeCount := Suc (writeCount w)\<rparr>))"

text \<open>
  One line of a report is written piece by piece, and every \<^verbatim>\<open>WriteString\<close> assigns
  \<^verbatim>\<open>err\<close> anew: what the code tests after the line is the error of the last piece.
\<close>

fun writePieces :: "env \<Rightarrow> string \<Rightarrow> string list \<Rightarrow> string option \<times> world \<Rightarrow> string option \<times> world" where
  "writePieces e path [] st = st"
| "writePieces e path (s # ss) (err, w) = writePieces e path ss (WriteString e path s w)"

text \<open>
  \<^verbatim>\<open>for k, v := range m\<close>, the keys visited in the order \<open>ks\<close>. The order the run time
  picks holds every key of the map once (\<open>rangeOrder\<close>).
\<close>

fun rangeMap :: "('k \<rightharpoonup> 'v) \<Rightarrow> 'k list \<Rightarrow> ('k \<times> 'v) list" where
  "rangeMap m [] = []"
| "rangeMap m (k # ks) = (case m k of None \<Rightarrow> rangeMap m ks | Some v \<Rightarrow> (k, v) # rangeMap m ks)"

definition rangeOrder :: "('k \<rightharpoonup> 'v) \<Rightarrow> 'k list \<Rightarrow> bool" where
  "rangeOrder m ks \<longleftrightarrow> distinct ks \<and> set ks = dom m"

subsection \<open>outputNonECRImages\<close>

definition nonECRDetail :: "podDetails \<Rightarrow> string" where
  "nonECRDetail match =
     ''(podName: '' @ podName match @ '', containerName: '' @ containerName match
       @ '', namespace: '' @ namespace match @ '') ''"

definition nonECRPieces :: "string \<Rightarrow> podDetails list \<Rightarrow> string list" where
  "nonECRPieces img details = (img @ [CHR 0x09]) # map nonECRDetail details @ [[CHR 0x0A]]"

fun nonECRLoop :: "env \<Rightarrow> string \<Rightarrow> (string \<times> podDetails list) list \<Rightarrow> world \<Rightarrow> error option \<times> world" where
  "nonECRLoop e path [] w = (None, w)"
| "nonECRLoop e path ((img, details) # rest) w =
     (if \<not> Contains img ''amazonaws.com'' then
        (case writePieces e path (nonECRPieces img details) (None, w) of
           (Some err, w') \<Rightarrow> (Some (ErrWritingResults path err), w')
         | (None, w') \<Rightarrow> nonECRLoop e path rest w')
      else nonECRLoop e path rest w)"

definition nonECRImageResultsPath :: "env \<Rightarrow> Config \<Rightarrow> string" where
  "nonECRImageResultsPath e c =
     ''non-ecr-images-'' @ clusterK8sContextName c @ ''-'' @ NonECRTimestamp e @ ''.txt''"

definition outputNonECRImages :: "env \<Rightarrow> Config \<Rightarrow> world \<Rightarrow> error option \<times> world" where
  "outputNonECRImages e c w =
     (let path = nonECRImageResultsPath e c in
      case OpenFile e path of
        Some err \<Rightarrow> (Some (ErrOpeningFile path err), w)
      | None \<Rightarrow> nonECRLoop e path (rangeMap (dockerImages c) (RangeReport e)) (openAppend path w))"

subsection \<open>outputOffendingImages\<close>

definition offendingDetail :: "env \<Rightarrow> offendingDockerImage \<Rightarrow> podDetails \<Rightarrow> string" where
  "offendingDetail e i match =
     ''(podName: '' @ podName match @ '', containerName: '' @ containerName match
       @ '', namespace: '' @ namespace match
       @ '', matched-keywords: '' @ FormatKeywords e (matchedKeywords i) @ '') ''"

text \<open>\<^verbatim>\<open>c.dockerImages[i.imageRef]\<close> of an image the map does not hold is the nil slice.\<close>

definition offendingPieces :: "env \<Rightarrow> Config \<Rightarrow> offendingDockerImage \<Rightarrow> string list" where
  "offendingPieces e c i =
     (let details = (case dockerImages c (imageRef i) of None \<Rightarrow> [] | Some ds \<Rightarrow> ds) in
      (imageRef i @ [CHR 0x09]) # map (offendingDetail e i) details @ [[CHR 0x0A]])"

fun offendingLoop :: "env \<Rightarrow> Config \<Rightarrow> string \<Rightarrow> offendingDockerImage list \<Rightarrow> world \<Rightarrow> error option \<times> world" where
  "offendingLoop e c path [] w = (None, w)"
| "offendingLoop e c path (i # rest) w =
     (case writePieces e path (offendingPieces e c i) (None, w) of
        (Some err, w') \<Rightarrow> (Some (ErrWritingResults path err), w')
      | (None, w') \<Rightarrow> offendingLoop e c path rest w')"

definition offendingImageResultsPath :: "env \<Rightarrow> Config \<Rightarrow> string" where
  "offendingImageResultsPath e c =
     ''offending-images-'' @ clusterK8sContextName c @ ''-'' @ OffendingTimestamp e @ ''.txt''"

definition outputOffendingImages :: "env \<Rightarrow> Config \<Rightarrow> world \<Rightarrow> error option \<times> world" where
  "outputOffendingImages e c w =
     (let path = offendingImageResultsPath e c in
      if length (offendingDockerImages c) > 0 then
        (case OpenFile e path of
           Some err \<Rightarrow> (Some (ErrOpeningFile path err), w)
         | None \<Rightarrow> offendingLoop e c path (offendingDockerImages c) (openAppend path w))
      else (None, printLine NoImagesMatched w))"

section \<open>ProcessAllImagesHistoryForKeywords\<close>

text \<open>
  The loop over the images, with \<^verbatim>\<open>count\<close>; \<open>None\<close> when a pull never returns. The
  deferred \<^verbatim>\<open>Close\<close> of the Docker client and of the report files can only log, and
  is left out.
\<close>

fun imagesLoop ::
  "env \<Rightarrow> nat \<Rightarrow> nat \<Rightarrow> string list \<Rightarrow> Config \<Rightarrow> world \<Rightarrow> (error option \<times> Config \<times> world) option"
where
  "imagesLoop e totalUniqueImages count [] c w = Some (None, c, w)"
| "imagesLoop e totalUniqueImages count (img # rest) c w =
     (case pullImage e c img (printLine (PullingImage count totalUniqueImages img) w) of
        None \<Rightarrow> None
      | Some (Some err, w1) \<Rightarrow> Some (Some err, c, w1)
      | Some (None, w1) \<Rightarrow>
          (case checkImageHistoryForKeyWords e c img w1 of
             (Inl err, w2) \<Rightarrow> Some (Some err, c, w2)
           | (Inr result, w2) \<Rightarrow>
               (let c' = (if matchFound result
                          then c\<lparr>offendingDockerImages := offendingDockerImages c @ [result]\<rparr>
                          else c)
                in case cleanupImage e img w2 of
                     (Some err, w3) \<Rightarrow> Some (Some err, c', w3)
                   | (None, w3) \<Rightarrow> imagesLoop e totalUniqueImages (Suc count) rest c' w3)))"

definition ProcessAllImagesHistoryForKeywords ::
  "env \<Rightarrow> Config \<Rightarrow> world \<Rightarrow> (error option \<times> Config \<times> world) option"
where
  "ProcessAllImagesHistoryForKeywords e c w =
     (case queryAllContainerImageRefsInCluster e c of
        (Some err, c1) \<Rightarrow> Some (Some err, c1, w)
      | (None, c1) \<Rightarrow>
          (case imagesLoop e (card (dom (dockerImages c1))) 1
                  (map fst (rangeMap (dockerImages c1) (RangeImages e))) c1 w of
             None \<Rightarrow> None
           | Some (Some err, c2, w2) \<Rightarrow> Some (Some err, c2, w2)
           | Some (None, c2, w2) \<Rightarrow>
               (case outputOffendingImages e c2 w2 of
                  (Some err, w3) \<Rightarrow> Some (Some err, c2, w3)
                | (None, w3) \<Rightarrow>
                    (case outputNonECRImages e c2 w3 of (err, w4) \<Rightarrow> Some (err, c2, w4)))))"

section \<open>NewConfig\<close>

text \<open>
  One turn of the loop over the regions: the login blob the turn stores at
  \<^verbatim>\<open>cfg.ecrCredentials[region]\<close>, or the error or panic it ends in.
  \<^verbatim>\<open>AuthorizationData\<close> is the list of the response's tokens (\<open>None\<close>: a nil
  \<^verbatim>\<open>AuthorizationToken\<close>); \<^verbatim>\<open>AuthorizationData[0]\<close> and \<^verbatim>\<open>credentialsSlice[1]\<close> panic
  when the index is out of range.
\<close>

definition regionCredential :: "env \<Rightarrow> string \<Rightarrow> string \<Rightarrow> error + string" where
  "regionCredential e profile region =
     (case LoadDefaultConfig e profile region of
        Some err \<Rightarrow> Inl (ErrLoadingAWSConfig err)
      | None \<Rightarrow>
     (case GetAuthorizationToken e profile region of
        Inl err \<Rightarrow> Inl (ErrGettingECRAuthToken err)
      | Inr [] \<Rightarrow> Inl (PanicIndexOutOfRange 0 0)
      | Inr (None # _) \<Rightarrow> Inl PanicNilDereference
      | Inr (Some token # _) \<Rightarrow>
     (case Base64Decode e token of
        Inl err \<Rightarrow> Inl (ErrDecodingECRAuthToken err)
      | Inr decodedToken \<Rightarrow>
     (case Split decodedToken CHR '':'' of
        _ # password # _ \<Rightarrow>
          (case JsonMarshal e [(''username'', ''AWS''), (''password'', password)] of
             Inl err \<Rightarrow> Inl (ErrMarshallingECRCreds err)
           | Inr jsonBytes \<Rightarrow> Inr (Base64Encode e jsonBytes))
      | credentialsSlice \<Rightarrow> Inl (PanicIndexOutOfRange 1 (length credentialsSlice))))))"

fun credentialLoop :: "env \<Rightarrow> string \<Rightarrow> string list \<Rightarrow> (string \<rightharpoonup> string) \<Rightarrow> error + (string \<rightharpoonup> string)" where
  "credentialLoop e profile [] creds = Inr creds"
| "credentialLoop e profile (region # rs) creds =
     (case regionCredential e profile region of
        Inl err \<Rightarrow> Inl err
      | Inr blob \<Rightarrow> credentialLoop e profile rs (creds(region \<mapsto> blob)))"

definition NewConfig :: "env \<Rightarrow> string list \<Rightarrow> string \<Rightarrow> string \<Rightarrow> string list \<Rightarrow> error + Config" where
  "NewConfig e keywords clusterAccountProfile imagesAccountProfile regions =
     (case credentialLoop e imagesAccountProfile regions Map.empty of
        Inl err \<Rightarrow> Inl err
      | Inr creds \<Rightarrow>
     (case NewDockerClient e of
        Some err \<Rightarrow> Inl (ErrCreatingDockerClient err)
      | None \<Rightarrow>
     (case BuildK8sConfig e clusterAccountProfile of
        Some err \<Rightarrow> Inl (ErrLoadingK8sConfig err)
      | None \<Rightarrow>
     (case NewK8sClientSet e of
        Some err \<Rightarrow> Inl (ErrCreatingK8sClientSet err)
      | None \<Rightarrow>
          Inr \<lparr>dockerImageKeyWords = keywords, dockerImages = Map.empty,
               offendingDockerImages = [], ecrCredentials = creds, ecrRegions = regions,
               clusterK8sContextName = clusterAccountProfile,
               imagesAccountAWSProfileName = imagesAccountProfile\<rparr>))))"

section \<open>parseFlags\<close>

definition AllAWSRegions :: "string list" where
  "AllAWSRegions =
     [''af-south-1'', ''ap-south-1'', ''eu-north-1'', ''eu-west-3'', ''eu-west-2'', ''eu-west-1'',
      ''ap-northeast-3'', ''ap-northeast-2'', ''ap-northeast-1'', ''ca-central-1'', ''sa-east-1'',
      ''ap-southeast-1'', ''ap-southeast-2'', ''eu-central-1'', ''us-east-1'', ''us-east-2'',
      ''us-west-1'', ''us-west-2'']"

fun sliceContainsLoop :: "string list \<Rightarrow> string \<Rightarrow> bool \<Rightarrow> bool" where
  "sliceContainsLoop [] s found = found"
| "sliceContainsLoop (e # es) s found = sliceContainsLoop es s (if e = s then True else found)"

definition sliceContains :: "string list \<Rightarrow> string \<Rightarrow> bool" where
  "sliceContains slice s = sliceContainsLoop slice s False"

fun ValidateAWSRegions :: "string list \<Rightarrow> bool" where
  "ValidateAWSRegions [] = True"
| "ValidateAWSRegions (r # rs) = (if \<not> sliceContains AllAWSRegions r then False else ValidateAWSRegions rs)"

datatype fatal = FatalUsage | FatalInvalidRegions "string list"

record flags =
  flag_clusterK8sContextName :: string
  flag_imagesAccountAWSProfileName :: string
  flag_dockerImageKeyWords :: "string list"
  flag_ecrRegions :: "string list"

text \<open>
  \<^verbatim>\<open>parseFlags\<close> of \<^verbatim>\<open>cmd/main.go\<close>, from the four flag values (empty when a flag is
  not given); \<^verbatim>\<open>log.Fatal\<close> ends the process.
\<close>

definition parseFlags :: "string \<Rightarrow> string \<Rightarrow> string \<Rightarrow> string \<Rightarrow> fatal + flags" where
  "parseFlags contextName profileName dockerImageKeyWordsFlag ecrRegionsFlag =
     (let keywords = (if length dockerImageKeyWordsFlag > 0
                      then Split dockerImageKeyWordsFlag CHR '','' else [])
      in if length contextName = 0 \<or> length profileName = 0 \<or> length keywords = 0
         then Inl FatalUsage
         else if length ecrRegionsFlag > 0 then
           (let regions = Split ecrRegionsFlag CHR '','' in
            if \<not> ValidateAWSRegions regions then Inl (FatalInvalidRegions regions)
            else Inr \<lparr>flag_clusterK8sContextName = contextName,
                      flag_imagesAccountAWSProfileName = profileName,
                      flag_dockerImageKeyWords = keywords, flag_ecrRegions = regions\<rparr>)
         else Inr \<lparr>flag_clusterK8sContextName = contextName,
                   flag_imagesAccountAWSProfileName = profileName,
                   flag_dockerImageKeyWords = keywords, flag_ecrRegions = []\<rparr>)"

section \<open>Notions of the properties, and example inputs\<close>

text \<open>
  An environment in which every call succeeds; the codecs are stand-ins (what they
  return for other inputs plays no role below).
\<close>

definition noWorld :: world where
  "noWorld = \<lparr>files = Map.empty, stdout = [], pullCalls = [], removeCalls = [], writeCount = 0\<rparr>"

definition jdkHistory :: "HistoryResponseItem list" where
  "jdkHistory =
     [\<lparr>CreatedBy = ''RUN apk add openjdk-14''\<rparr>,
      \<lparr>CreatedBy = ''ENV JAVA_HOME=/opt/JDK-14''\<rparr>,
      \<lparr>CreatedBy = ''RUN rm jdk-14.tgz''\<rparr>]"

definition quietEnv :: env where
  "quietEnv =
     \<lparr>LoadDefaultConfig = (\<lambda>profile region. None),
      GetAuthorizationToken = (\<lambda>profile region. Inr [Some ''QVdTOnNlY3JldA=='']),
      Base64Decode = (\<lambda>s. if s = ''QVdTOnNlY3JldA=='' then Inr ''AWS:secret''
                          else if s = ''QVdTc2VjcmV0'' then Inr ''AWSsecret''
                          else Inl ''illegal base64 data''),
      Base64Encode = (\<lambda>s. ''base64('' @ s @ '')''),
      JsonMarshal = (\<lambda>kvs. Inr (concat (map (\<lambda>(k, v). k @ ''='' @ v @ '';'') kvs))),
      NewDockerClient = None,
      BuildK8sConfig = (\<lambda>context. None),
      NewK8sClientSet = None,
      ListPods = Inr [],
      ImagePull = (\<lambda>ref auth. Inr []),
      Now = (\<lambda>ref k. 0),
      ImageHistory = (\<lambda>ref. if ref = ''registry.example/app:1'' then Inr jdkHistory else Inr []),
      ImageRemove = (\<lambda>ref. None),
      OpenFile = (\<lambda>path. None),
      WriteError = (\<lambda>n. None),
      FormatKeywords = (\<lambda>m. ''map[]''),
      OffendingTimestamp = ''1-Nov-2026-06:00'',
      NonECRTimestamp = ''1-Nov-2026-06:01'',
      RangeImages = [],
      RangeReport = []\<rparr>"

definition jdkConfig :: Config where
  "jdkConfig =
     \<lparr>dockerImageKeyWords = [''jdk-14''], dockerImages = Map.empty, offendingDockerImages = [],
      ecrCredentials = Map.empty, ecrRegions = [], clusterK8sContextName = ''prod-cluster'',
      imagesAccountAWSProfileName = ''production''\<rparr>"

definition trailingCommaConfig :: Config where
  "trailingCommaConfig = jdkConfig\<lparr>dockerImageKeyWords := Split ''openjdk8,'' CHR '',''\<rparr>"

text \<open>
  The provenance the specification expects for an image: one tuple for every container
  of every pod that names the image, pods in the order of the listing and containers
  in the order of the pod. \<open>imagesOf\<close> is every image string of the listing.
\<close>

definition occurrencesIn :: "pod \<Rightarrow> container list \<Rightarrow> string \<Rightarrow> podDetails list" where
  "occurrencesIn p cts img =
     map (\<lambda>ct. \<lparr>podName = pod_Name p, containerName = container_Name ct,
                 namespace = pod_Namespace p\<rparr>)
       (filter (\<lambda>ct. container_Image ct = img) cts)"

definition occurrencesOf :: "pod list \<Rightarrow> string \<Rightarrow> podDetails list" where
  "occurrencesOf pods img = concat (map (\<lambda>p. occurrencesIn p (pod_Containers p) img) pods)"

definition imagesOf :: "pod list \<Rightarrow> string list" where
  "imagesOf pods = concat (map (\<lambda>p. map container_Image (pod_Containers p)) pods)"

definition sharedImagePods :: "pod list" where
  "sharedImagePods =
     [\<lparr>pod_Name = ''web-1'', pod_Namespace = ''shop'',
       pod_Containers = [\<lparr>container_Name = ''app'', container_Image = ''registry.example/app:1''\<rparr>,
                         \<lparr>container_Name = ''proxy'', container_Image = ''nginx:1.25''\<rparr>]\<rparr>,
      \<lparr>pod_Name = ''web-2'', pod_Namespace = ''shop'',
       pod_Containers = [\<lparr>container_Name = ''app'', container_Image = ''registry.example/app:1''\<rparr>]\<rparr>]"

definition sharedImageEnv :: env where
  "sharedImageEnv = quietEnv\<lparr>ListPods := Inr sharedImagePods\<rparr>"

text \<open>
  The configured regions whose host pattern occurs in an image reference, in the order
  of the configuration; \<^verbatim>\<open>c.ecrCredentials[region]\<close> as Go reads it; and the registry
  host of a reference, the part before the first slash.
\<close>

definition matchingRegions :: "Config \<Rightarrow> string \<Rightarrow> string list" where
  "matchingRegions c ref = filter (\<lambda>region. Contains ref (ecrHost region)) (ecrRegions c)"

definition credentialOf :: "Config \<Rightarrow> string \<Rightarrow> string" where
  "credentialOf c region = (case ecrCredentials c region of None \<Rightarrow> [] | Some cred \<Rightarrow> cred)"

definition registryHost :: "string \<Rightarrow> string" where
  "registryHost ref = takeWhile (\<lambda>ch. ch \<noteq> CHR ''/'') ref"

definition twoRegionConfig :: Config where
  "twoRegionConfig =
     jdkConfig\<lparr>ecrRegions := [''eu-west-1'', ''eu-west-2''],
               ecrCredentials := [''eu-west-1'' \<mapsto> ''credential-eu-west-1'',
                                  ''eu-west-2'' \<mapsto> ''credential-eu-west-2'']\<rparr>"

definition irelandRef :: string where
  "irelandRef = ''123456789012.dkr.ecr.eu-west-1.amazonaws.com/foo:1''"

definition virginiaRef :: string where
  "virginiaRef = ''123456789012.dkr.ecr.us-east-1.amazonaws.com/foo:1''"

definition mirrorRef :: string where
  "mirrorRef = ''123456789012.dkr.ecr.eu-west-1.amazonaws.com/dkr.ecr.eu-west-2.amazonaws.com/foo:1''"

text \<open>
  A status event that ends the pull: an object that names a status holding one of the
  two texts.
\<close>

definition isTerminalEvent :: "jsonEvent \<Rightarrow> bool" where
  "isTerminalEvent j = (case jStatus j of None \<Rightarrow> False | Some s \<Rightarrow> terminalStatus s)"

text \<open>A clock that moves one second between two calls of \<^verbatim>\<open>time.Now()\<close>.\<close>

definition steadyClock :: "nat \<Rightarrow> int" where
  "steadyClock k = int k * 1000000000"

definition pullingEvent :: jsonEvent where
  "pullingEvent =
     \<lparr>jStatus = Some ''Pulling from library/nginx'', jError = None, jProgress = None,
      jCurrent = None, jTotal = None\<rparr>"

definition downloadedEvent :: jsonEvent where
  "downloadedEvent =
     \<lparr>jStatus = Some ''Status: Downloaded newer image for nginx:1.25'', jError = None,
      jProgress = None, jCurrent = None, jTotal = None\<rparr>"

definition pullEnv :: env where
  "pullEnv =
     quietEnv\<lparr>Now := (\<lambda>ref. steadyClock),
       ImagePull := (\<lambda>ref auth.
         if ref = ''nginx:1.25'' then Inr [DecObject pullingEvent, DecObject downloadedEvent]
         else if ref = ''stalled:1'' then Inr [DecObject pullingEvent]
         else if ref = ''broken:1'' then Inr [DecObject pullingEvent, DecError ''unexpected EOF'']
         else if ref = ''garbled:1'' then Inr [DecError ''invalid character'']
         else Inr [])\<rparr>"

definition pulledWorld :: "string \<Rightarrow> world" where
  "pulledWorld ref = noWorld\<lparr>pullCalls := [(ref, [])]\<rparr>"

text \<open>
  What a file holds (nothing when it is not there); a world that differs from another
  in that a text is appended to one file (and in the count of writes); the line of the
  non-ECR report
  for an image, and the entries of the image mapping that the report is about: those
  whose reference does not hold \<open>amazonaws.com\<close>, in the order of the \<^verbatim>\<open>range\<close> loop.
\<close>

definition fileContent :: "world \<Rightarrow> string \<Rightarrow> string" where
  "fileContent w path = (case files w path of None \<Rightarrow> [] | Some t \<Rightarrow> t)"

definition appended :: "world \<Rightarrow> string \<Rightarrow> string \<Rightarrow> world \<Rightarrow> bool" where
  "appended w path t w' \<longleftrightarrow>
     files w' = (files w)(path \<mapsto> fileContent w path @ t) \<and> stdout w' = stdout w
     \<and> pullCalls w' = pullCalls w \<and> removeCalls w' = removeCalls w"

definition nonECRLine :: "string \<times> podDetails list \<Rightarrow> string" where
  "nonECRLine entry = fst entry @ [CHR 0x09] @ concat (map nonECRDetail (snd entry)) @ [CHR 0x0A]"

definition isNonECR :: "string \<times> podDetails list \<Rightarrow> bool" where
  "isNonECR entry \<longleftrightarrow> \<not> Contains (fst entry) ''amazonaws.com''"

definition nonECREntries :: "env \<Rightarrow> Config \<Rightarrow> (string \<times> podDetails list) list" where
  "nonECREntries e c = filter isNonECR (rangeMap (dockerImages c) (RangeReport e))"

definition mixedConfig :: Config where
  "mixedConfig =
     twoRegionConfig\<lparr>dockerImages :=
       [irelandRef \<mapsto> [\<lparr>podName = ''api-1'', containerName = ''api'', namespace = ''shop''\<rparr>],
        ''nginx:1.25'' \<mapsto> [\<lparr>podName = ''web-1'', containerName = ''proxy'', namespace = ''shop''\<rparr>,
                          \<lparr>podName = ''web-2'', containerName = ''proxy'', namespace = ''shop''\<rparr>]]\<rparr>"

definition reportEnv :: env where
  "reportEnv = quietEnv\<lparr>RangeReport := [''nginx:1.25'', irelandRef]\<rparr>"

text \<open>
  An image has a keyword in some layer of its history; the line of the match report
  for a result.
\<close>

definition hasMatch :: "env \<Rightarrow> string list \<Rightarrow> string \<Rightarrow> bool" where
  "hasMatch e kws ref \<longleftrightarrow>
     (case ImageHistory e ref of
        Inl err \<Rightarrow> False
      | Inr hs \<Rightarrow> \<exists>h\<in>set hs. \<exists>k\<in>set kws. matchesLayer k h)"

definition offendingLine :: "env \<Rightarrow> Config \<Rightarrow> offendingDockerImage \<Rightarrow> string" where
  "offendingLine e c i = concat (offendingPieces e c i)"

definition jdkResult :: offendingDockerImage where
  "jdkResult = \<lparr>matchFound = True, imageRef = ''registry.example/app:1'',
                 matchedKeywords = [''jdk-14'' \<mapsto> 3]\<rparr>"

definition matchedConfig :: Config where
  "matchedConfig =
     jdkConfig\<lparr>offendingDockerImages := [jdkResult],
       dockerImages :=
         [''registry.example/app:1'' \<mapsto>
            [\<lparr>podName = ''web-1'', containerName = ''app'', namespace = ''shop''\<rparr>]]\<rparr>"

definition matchEnv :: env where
  "matchEnv =
     quietEnv\<lparr>FormatKeywords :=
       (\<lambda>m. if lookupCount m ''jdk-14'' = 3 then ''map[jdk-14:3]'' else ''map[]'')\<rparr>"

definition nginxWorld :: world where
  "nginxWorld =
     \<lparr>files = Map.empty, stdout = [PullingImage 1 1 ''nginx:1.25''],
      pullCalls = [(''nginx:1.25'', [])], removeCalls = [''nginx:1.25''], writeCount = 0\<rparr>"

text \<open>The decoded token of a region, when the fetch and the decoding succeed.\<close>

definition fetchedToken :: "env \<Rightarrow> string \<Rightarrow> string \<Rightarrow> string option" where
  "fetchedToken e profile region =
     (case LoadDefaultConfig e profile region of
        Some err \<Rightarrow> None
      | None \<Rightarrow>
          (case GetAuthorizationToken e profile region of
             Inr (Some token # rest) \<Rightarrow>
               (case Base64Decode e token of Inl err \<Rightarrow> None | Inr decoded \<Rightarrow> Some decoded)
           | _ \<Rightarrow> None))"

definition bareTokenEnv :: env where
  "bareTokenEnv =
     quietEnv\<lparr>GetAuthorizationToken :=
       (\<lambda>profile region. if region = ''eu-west-2'' then Inr [Some ''QVdTc2VjcmV0'']
                          else Inr [Some ''QVdTOnNlY3JldA==''])\<rparr>"

definition startedConfig :: Config where
  "startedConfig =
     \<lparr>dockerImageKeyWords = [''jdk-14''], dockerImages = Map.empty, offendingDockerImages = [],
      ecrCredentials = [''eu-west-1'' \<mapsto> ''base64(username=AWS;password=secret;)'',
                        ''eu-west-2'' \<mapsto> ''base64(username=AWS;password=secret;)''],
      ecrRegions = [''eu-west-1'', ''eu-west-2''], clusterK8sContextName = ''prod-cluster'',
      imagesAccountAWSProfileName = ''production''\<rparr>"

section \<open>Properties\<close>

subsection \<open>Strings\<close>

lemma Contains_sublist: "Contains s sub = sublist sub s"
  by (induction s) (auto simp: sublist_Cons_right)

lemma Contains_Nil [simp]: "Contains s []"
  by (simp add: Contains_sublist)

lemma Contains_ToLower: "Contains s sub \<Longrightarrow> Contains (ToLower s) (ToLower sub)"
proof -
  assume "Contains s sub"
  then obtain ps ss where "s = ps @ sub @ ss"
    by (auto simp: Contains_sublist sublist_def)
  then have "ToLower s = ToLower ps @ ToLower sub @ ToLower ss"
    by (simp add: ToLower_def)
  then show ?thesis
    by (simp add: Contains_sublist)
qed

lemma Split_not_Nil [simp]: "Split s sep \<noteq> []"
  by (induction s) (auto split: list.splits)

lemma Split_append_sep: "Split (ps @ sep # ss) sep = Split ps sep @ Split ss sep"
proof (induction ps)
  case Nil
  then show ?case by simp
next
  case (Cons c ps)
  obtain f fs where "Split ps sep = f # fs"
    by (cases "Split ps sep") auto
  with Cons show ?case by simp
qed

lemma Split_trailing: "s \<noteq> [] \<Longrightarrow> last s = sep \<Longrightarrow> [] \<in> set (Split s sep)"
proof -
  assume "s \<noteq> []" "last s = sep"
  then have "s = butlast s @ sep # []"
    by (metis append_butlast_last_id)
  then have "Split s sep = Split (butlast s) sep @ Split [] sep"
    by (metis Split_append_sep)
  then show ?thesis by simp
qed

lemma Split_doubled: "Contains s [sep, sep] \<Longrightarrow> [] \<in> set (Split s sep)"
proof -
  assume "Contains s [sep, sep]"
  then obtain ps ss where "s = ps @ sep # (sep # ss)"
    by (auto simp: Contains_sublist sublist_def)
  then have "Split s sep = Split ps sep @ Split (sep # ss) sep"
    by (metis Split_append_sep)
  then show ?thesis by simp
qed

lemma Split_length: "length (Split s sep) = Suc (count_list s sep)"
  by (induction s) (auto split: list.splits)

subsection \<open>Keyword matching\<close>

lemma matchesLayer_empty [simp]: "matchesLayer [] h"
  by (simp add: matchesLayer_def ToLower_def)


lemma lookupCount_increment:
  "lookupCount (increment m k) k' = lookupCount m k' + (if k' = k then 1 else 0)"
  by (simp add: lookupCount_def increment_def)

lemma keywordLoop_count:
  "lookupCount (matchedKeywords (fst (keywordLoop ref cb ks (r, w)))) k =
     lookupCount (matchedKeywords r) k
       + (if Contains (ToLower cb) (ToLower k) then int (count_list ks k) else 0)"
  by (induction ks arbitrary: r w) (auto simp: lookupCount_increment Let_def)

lemma keywordLoop_found:
  "matchFound (fst (keywordLoop ref cb ks (r, w))) \<longleftrightarrow>
     matchFound r \<or> (\<exists>k\<in>set ks. Contains (ToLower cb) (ToLower k))"
  by (induction ks arbitrary: r w) (auto simp: Let_def)

lemma historyLoop_count:
  "lookupCount (matchedKeywords (fst (historyLoop ref kws hs st))) k =
     lookupCount (matchedKeywords (fst st)) k
       + int (count_list kws k) * int (length (filter (matchesLayer k) hs))"
proof (induction hs arbitrary: st)
  case Nil
  then show ?case by simp
next
  case (Cons h hs)
  obtain r w where st: "st = (r, w)" by (cases st)
  show ?case
    by (simp add: Cons.IH st keywordLoop_count matchesLayer_def algebra_simps)
qed

lemma historyLoop_found:
  "matchFound (fst (historyLoop ref kws hs st)) \<longleftrightarrow>
     matchFound (fst st) \<or> (\<exists>h\<in>set hs. \<exists>k\<in>set kws. matchesLayer k h)"
proof (induction hs arbitrary: st)
  case Nil
  then show ?case by simp
next
  case (Cons h hs)
  obtain r w where st: "st = (r, w)" by (cases st)
  show ?case
    by (auto simp: Cons.IH st keywordLoop_found matchesLayer_def)
qed

lemma checkImageHistoryForKeyWords_result:
  assumes "ImageHistory e ref = Inr hs"
  shows "\<exists>r w'. checkImageHistoryForKeyWords e c ref w = (Inr r, w')
           \<and> (matchFound r \<longleftrightarrow> (\<exists>h\<in>set hs. \<exists>k\<in>set (dockerImageKeyWords c). matchesLayer k h))
           \<and> (\<forall>k. lookupCount (matchedKeywords r) k =
                 int (count_list (dockerImageKeyWords c) k) * int (length (filter (matchesLayer k) hs)))"
proof -
  let ?st = "(\<lparr>matchFound = False, imageRef = [], matchedKeywords = Map.empty\<rparr>, w)"
  obtain r w' where rw: "historyLoop ref (dockerImageKeyWords c) hs ?st = (r, w')"
    by (cases "historyLoop ref (dockerImageKeyWords c) hs ?st")
  have r: "r = fst (historyLoop ref (dockerImageKeyWords c) hs ?st)"
    by (simp add: rw)
  have "checkImageHistoryForKeyWords e c ref w = (Inr r, w')"
    by (simp add: checkImageHistoryForKeyWords_def assms rw)
  moreover have "matchFound r \<longleftrightarrow> (\<exists>h\<in>set hs. \<exists>k\<in>set (dockerImageKeyWords c). matchesLayer k h)"
    unfolding r historyLoop_found by simp
  moreover have "\<forall>k. lookupCount (matchedKeywords r) k =
                 int (count_list (dockerImageKeyWords c) k) * int (length (filter (matchesLayer k) hs))"
    unfolding r historyLoop_count by (simp add: lookupCount_def)
  ultimately show ?thesis by blast
qed

lemmas string_eval = ToLower_def lowerByte_def char_of_def bit_Suc_0_iff

text \<open>
  C3. For every history and every keyword list, the result of
  \<open>checkImageHistoryForKeyWords\<close> marks a match exactly when some keyword occurs in
  some layer's command text with the case of the letters ignored, and the counter of a
  keyword is the number of layers it occurs in, once for each time the keyword is
  configured. A keyword that occurs literally in a command matches, and the test does
  not tell apart two keywords, or two commands, that differ in case only. Three layers
  that each hold \<open>jdk-14\<close>, and \<open>jdk-14\<close> configured once: the counter is 3 and
  \<open>matchFound\<close> is true.
\<close>

theorem checkImageHistoryForKeyWords_counts:
  assumes "ImageHistory e ref = Inr hs"
  shows "\<exists>r w'. checkImageHistoryForKeyWords e c ref w = (Inr r, w')
           \<and> (matchFound r \<longleftrightarrow> (\<exists>h\<in>set hs. \<exists>k\<in>set (dockerImageKeyWords c). matchesLayer k h))
           \<and> (\<forall>k. lookupCount (matchedKeywords r) k =
                 int (count_list (dockerImageKeyWords c) k) * int (length (filter (matchesLayer k) hs)))
           \<and> (\<forall>k h. Contains (CreatedBy h) k \<longrightarrow> matchesLayer k h)
           \<and> (\<forall>k k' h h'. ToLower k = ToLower k' \<and> ToLower (CreatedBy h) = ToLower (CreatedBy h')
                 \<longrightarrow> matchesLayer k h = matchesLayer k' h')
           \<and> (length hs = 3 \<and> (\<forall>h\<in>set hs. matchesLayer ''jdk-14'' h)
                \<and> count_list (dockerImageKeyWords c) ''jdk-14'' = 1
               \<longrightarrow> lookupCount (matchedKeywords r) ''jdk-14'' = 3 \<and> matchFound r)"
proof -
  obtain r w' where
    run: "checkImageHistoryForKeyWords e c ref w = (Inr r, w')" and
    found: "matchFound r \<longleftrightarrow> (\<exists>h\<in>set hs. \<exists>k\<in>set (dockerImageKeyWords c). matchesLayer k h)" and
    counts: "\<forall>k. lookupCount (matchedKeywords r) k =
                 int (count_list (dockerImageKeyWords c) k) * int (length (filter (matchesLayer k) hs))"
    using checkImageHistoryForKeyWords_result [OF assms, of c w] by blast
  have sub: "\<forall>k h. Contains (CreatedBy h) k \<longrightarrow> matchesLayer k h"
    by (simp add: matchesLayer_def Contains_ToLower)
  have ci: "\<forall>k k' h h'. ToLower k = ToLower k' \<and> ToLower (CreatedBy h) = ToLower (CreatedBy h')
                 \<longrightarrow> matchesLayer k h = matchesLayer k' h'"
    by (simp add: matchesLayer_def)
  have ex: "lookupCount (matchedKeywords r) ''jdk-14'' = 3 \<and> matchFound r"
    if three: "length hs = 3" and each: "\<forall>h\<in>set hs. matchesLayer ''jdk-14'' h"
      and once: "count_list (dockerImageKeyWords c) ''jdk-14'' = 1"
  proof -
    have all: "filter (matchesLayer ''jdk-14'') hs = hs"
      using each by simp
    have "lookupCount (matchedKeywords r) ''jdk-14'' = 3"
      using counts once three by (simp add: all)
    moreover have "''jdk-14'' \<in> set (dockerImageKeyWords c)"
      using once by (metis count_list_0_iff zero_neq_one)
    moreover have "hs \<noteq> []"
      using three by auto
    ultimately show ?thesis
      using found each by (metis last_in_set)
  qed
  from run found counts sub ci ex show ?thesis by blast
qed

theorem checkImageHistoryForKeyWords_counts_witness:
  "ImageHistory quietEnv ''registry.example/app:1'' = Inr jdkHistory
   \<and> length jdkHistory = 3
   \<and> matchesLayer ''jdk-14'' (jdkHistory ! 1)
   \<and> (\<exists>r w'. checkImageHistoryForKeyWords quietEnv jdkConfig ''registry.example/app:1'' noWorld = (Inr r, w')
         \<and> lookupCount (matchedKeywords r) ''jdk-14'' = 3 \<and> matchFound r)"
proof -
  have h: "ImageHistory quietEnv ''registry.example/app:1'' = Inr jdkHistory"
    by (simp add: quietEnv_def)
  have each: "\<forall>h\<in>set jdkHistory. matchesLayer ''jdk-14'' h"
    by (simp add: jdkHistory_def matchesLayer_def string_eval)
  have once: "count_list (dockerImageKeyWords jdkConfig) ''jdk-14'' = 1"
    by (simp add: jdkConfig_def)
  have three: "length jdkHistory = 3"
    by (simp add: jdkHistory_def)
  have second: "matchesLayer ''jdk-14'' (jdkHistory ! 1)"
    by (simp add: jdkHistory_def matchesLayer_def string_eval)
  show ?thesis
    using checkImageHistoryForKeyWords_counts [OF h, of jdkConfig noWorld] h each once three second
    by blast
qed

text \<open>
  C9. A keyword flag that ends in a comma or holds two commas in a row splits into a
  keyword list with the empty string in it. The empty keyword matches every layer, so
  with it configured every image whose history has a layer gets \<open>matchFound\<close>, and
  the counter of the empty keyword is the number of layers, once for each time the
  empty keyword is in the list.
\<close>

theorem empty_keyword_matches_every_layer:
  "(parseFlags contextName profileName keyWordsFlag regionsFlag = Inr fl
      \<and> keyWordsFlag \<noteq> [] \<and> (last keyWordsFlag = CHR '','' \<or> Contains keyWordsFlag '',,'')
     \<longrightarrow> [] \<in> set (flag_dockerImageKeyWords fl))
   \<and> (\<forall>h. matchesLayer [] h)
   \<and> (ImageHistory e ref = Inr hs \<and> [] \<in> set (dockerImageKeyWords c) \<and> hs \<noteq> []
     \<longrightarrow> (\<exists>r w'. checkImageHistoryForKeyWords e c ref w = (Inr r, w') \<and> matchFound r
           \<and> lookupCount (matchedKeywords r) [] =
               int (count_list (dockerImageKeyWords c) []) * int (length hs)))"
proof (intro conjI impI)
  assume a: "parseFlags contextName profileName keyWordsFlag regionsFlag = Inr fl
      \<and> keyWordsFlag \<noteq> [] \<and> (last keyWordsFlag = CHR '','' \<or> Contains keyWordsFlag '',,'')"
  then have kw: "flag_dockerImageKeyWords fl = Split keyWordsFlag CHR '',''"
    by (auto simp: parseFlags_def Let_def split: if_splits)
  from a have "[] \<in> set (Split keyWordsFlag CHR '','')"
    using Split_trailing [of keyWordsFlag "CHR '',''"] Split_doubled [of keyWordsFlag "CHR '',''"]
    by blast
  with kw show "[] \<in> set (flag_dockerImageKeyWords fl)"
    by simp
next
  show "\<forall>h. matchesLayer [] h"
    by simp
next
  assume b: "ImageHistory e ref = Inr hs \<and> [] \<in> set (dockerImageKeyWords c) \<and> hs \<noteq> []"
  then obtain r w' where
    run: "checkImageHistoryForKeyWords e c ref w = (Inr r, w')" and
    found: "matchFound r \<longleftrightarrow> (\<exists>h\<in>set hs. \<exists>k\<in>set (dockerImageKeyWords c). matchesLayer k h)" and
    counts: "\<forall>k. lookupCount (matchedKeywords r) k =
                 int (count_list (dockerImageKeyWords c) k) * int (length (filter (matchesLayer k) hs))"
    using checkImageHistoryForKeyWords_result [of e ref hs c w] by blast
  from b have "hd hs \<in> set hs" by simp
  with b found have "matchFound r"
    using matchesLayer_empty by blast
  moreover have "lookupCount (matchedKeywords r) [] =
      int (count_list (dockerImageKeyWords c) []) * int (length hs)"
    using counts by simp
  ultimately show "\<exists>r w'. checkImageHistoryForKeyWords e c ref w = (Inr r, w') \<and> matchFound r
           \<and> lookupCount (matchedKeywords r) [] =
               int (count_list (dockerImageKeyWords c) []) * int (length hs)"
    using run by blast
qed

theorem empty_keyword_matches_every_layer_witness:
  "parseFlags ''prod-cluster'' ''production'' ''openjdk8,'' [] =
      Inr \<lparr>flag_clusterK8sContextName = ''prod-cluster'',
           flag_imagesAccountAWSProfileName = ''production'',
           flag_dockerImageKeyWords = [''openjdk8'', []], flag_ecrRegions = []\<rparr>
   \<and> last ''openjdk8,'' = CHR '',''
   \<and> dockerImageKeyWords trailingCommaConfig = [''openjdk8'', []]
   \<and> ImageHistory quietEnv ''registry.example/app:1'' = Inr jdkHistory
   \<and> (\<exists>r w'. checkImageHistoryForKeyWords quietEnv trailingCommaConfig ''registry.example/app:1'' noWorld
                = (Inr r, w')
         \<and> matchFound r \<and> lookupCount (matchedKeywords r) [] = 3
         \<and> lookupCount (matchedKeywords r) ''openjdk8'' = 0)"
proof -
  have p: "parseFlags ''prod-cluster'' ''production'' ''openjdk8,'' [] =
      Inr \<lparr>flag_clusterK8sContextName = ''prod-cluster'',
           flag_imagesAccountAWSProfileName = ''production'',
           flag_dockerImageKeyWords = [''openjdk8'', []], flag_ecrRegions = []\<rparr>"
    by (simp add: parseFlags_def)
  have k: "dockerImageKeyWords trailingCommaConfig = [''openjdk8'', []]"
    by (simp add: trailingCommaConfig_def)
  have h: "ImageHistory quietEnv ''registry.example/app:1'' = Inr jdkHistory"
    by (simp add: quietEnv_def)
  have n: "jdkHistory \<noteq> []" "length jdkHistory = 3"
    by (simp_all add: jdkHistory_def)
  obtain r w' where
    run: "checkImageHistoryForKeyWords quietEnv trailingCommaConfig ''registry.example/app:1'' noWorld
            = (Inr r, w')" and
    found: "matchFound r" and
    count: "lookupCount (matchedKeywords r) [] = 3"
    using empty_keyword_matches_every_layer
      [of "''prod-cluster''" "''production''" "''openjdk8,''" "[]"
          "\<lparr>flag_clusterK8sContextName = ''prod-cluster'',
            flag_imagesAccountAWSProfileName = ''production'',
            flag_dockerImageKeyWords = [''openjdk8'', []], flag_ecrRegions = []\<rparr>" quietEnv
          "''registry.example/app:1''" jdkHistory trailingCommaConfig noWorld] h k n
    by auto
  have none: "filter (matchesLayer ''openjdk8'') jdkHistory = []"
    by (simp add: jdkHistory_def matchesLayer_def string_eval)
  have "lookupCount (matchedKeywords r) ''openjdk8'' = 0"
    using checkImageHistoryForKeyWords_result [OF h, of trailingCommaConfig noWorld] run none
    by auto
  with run found count k n p h show ?thesis
    by simp
qed

subsection \<open>The cluster scan\<close>

lemma containerLoop_lookup:
  "containerLoop p cts m img =
     (if occurrencesIn p cts img = [] then m img
      else Some ((case m img of None \<Rightarrow> [] | Some ds \<Rightarrow> ds) @ occurrencesIn p cts img))"
  by (induction cts arbitrary: m) (auto simp: occurrencesIn_def Let_def)

lemma podLoop_lookup:
  "podLoop pods m img =
     (if occurrencesOf pods img = [] then m img
      else Some ((case m img of None \<Rightarrow> [] | Some ds \<Rightarrow> ds) @ occurrencesOf pods img))"
proof (induction pods arbitrary: m)
  case Nil
  then show ?case by (simp add: occurrencesOf_def)
next
  case (Cons p pods)
  have split: "occurrencesOf (p # pods) img = occurrencesIn p (pod_Containers p) img @ occurrencesOf pods img"
    by (simp add: occurrencesOf_def)
  show ?case
    by (simp add: Cons.IH split containerLoop_lookup)
qed

lemma occurrencesOf_empty_iff:
  "occurrencesOf pods img = [] \<longleftrightarrow>
     img \<notin> set (imagesOf pods)"
  by (auto simp: occurrencesOf_def occurrencesIn_def imagesOf_def filter_empty_conv)

text \<open>
  C4. After the scan of a freshly made configuration the image mapping has a key for
  exactly the images that some container names, and the value at an image is the list
  of its occurrences, one tuple for each, in the order of discovery; being a map it has
  one entry for an image however many pods share it.
\<close>

theorem queryAllContainerImageRefsInCluster_dedup:
  assumes "ListPods e = Inr pods" and "dockerImages c = Map.empty"
  shows "\<exists>c'. queryAllContainerImageRefsInCluster e c = (None, c')
           \<and> dom (dockerImages c') = set (imagesOf pods)
           \<and> (\<forall>img\<in>dom (dockerImages c'). dockerImages c' img = Some (occurrencesOf pods img))
           \<and> (\<forall>img. img \<notin> dom (dockerImages c') \<longrightarrow> occurrencesOf pods img = [])"
proof -
  let ?c' = "c\<lparr>dockerImages := podLoop pods (dockerImages c)\<rparr>"
  have run: "queryAllContainerImageRefsInCluster e c = (None, ?c')"
    by (simp add: queryAllContainerImageRefsInCluster_def assms)
  have look: "dockerImages ?c' img =
      (if occurrencesOf pods img = [] then None else Some (occurrencesOf pods img))" for img
    by (simp add: podLoop_lookup assms)
  have d: "dom (dockerImages ?c') = set (imagesOf pods)"
    using look occurrencesOf_empty_iff [of pods] by (auto simp: dom_def split: if_splits)
  have v: "\<forall>img\<in>dom (dockerImages ?c'). dockerImages ?c' img = Some (occurrencesOf pods img)"
    using look by (auto simp: dom_def split: if_splits)
  have n: "\<forall>img. img \<notin> dom (dockerImages ?c') \<longrightarrow> occurrencesOf pods img = []"
    using look by (auto simp: dom_def split: if_splits)
  from run d v n show ?thesis by blast
qed

theorem queryAllContainerImageRefsInCluster_dedup_witness:
  "ListPods sharedImageEnv = Inr sharedImagePods \<and> dockerImages jdkConfig = Map.empty
   \<and> (\<exists>c'. queryAllContainerImageRefsInCluster sharedImageEnv jdkConfig = (None, c')
        \<and> dom (dockerImages c') = {''registry.example/app:1'', ''nginx:1.25''}
        \<and> dockerImages c' ''registry.example/app:1'' =
            Some [\<lparr>podName = ''web-1'', containerName = ''app'', namespace = ''shop''\<rparr>,
                  \<lparr>podName = ''web-2'', containerName = ''app'', namespace = ''shop''\<rparr>]
        \<and> dockerImages c' ''nginx:1.25'' =
            Some [\<lparr>podName = ''web-1'', containerName = ''proxy'', namespace = ''shop''\<rparr>])"
proof -
  have l: "ListPods sharedImageEnv = Inr sharedImagePods"
    by (simp add: sharedImageEnv_def)
  have m: "dockerImages jdkConfig = Map.empty"
    by (simp add: jdkConfig_def)
  obtain c' where
    run: "queryAllContainerImageRefsInCluster sharedImageEnv jdkConfig = (None, c')" and
    d: "dom (dockerImages c') = set (imagesOf sharedImagePods)" and
    v: "\<forall>img\<in>dom (dockerImages c'). dockerImages c' img = Some (occurrencesOf sharedImagePods img)"
    using queryAllContainerImageRefsInCluster_dedup [OF l m] by blast
  have d': "dom (dockerImages c') = {''registry.example/app:1'', ''nginx:1.25''}"
    unfolding d by (auto simp: sharedImagePods_def imagesOf_def)
  have a: "occurrencesOf sharedImagePods ''registry.example/app:1'' =
            [\<lparr>podName = ''web-1'', containerName = ''app'', namespace = ''shop''\<rparr>,
             \<lparr>podName = ''web-2'', containerName = ''app'', namespace = ''shop''\<rparr>]"
    by (simp add: occurrencesOf_def occurrencesIn_def sharedImagePods_def)
  have b: "occurrencesOf sharedImagePods ''nginx:1.25'' =
            [\<lparr>podName = ''web-1'', containerName = ''proxy'', namespace = ''shop''\<rparr>]"
    by (simp add: occurrencesOf_def occurrencesIn_def sharedImagePods_def)
  from v d' a b have "dockerImages c' ''registry.example/app:1'' =
            Some [\<lparr>podName = ''web-1'', containerName = ''app'', namespace = ''shop''\<rparr>,
                  \<lparr>podName = ''web-2'', containerName = ''app'', namespace = ''shop''\<rparr>]"
    and "dockerImages c' ''nginx:1.25'' =
            Some [\<lparr>podName = ''web-1'', containerName = ''proxy'', namespace = ''shop''\<rparr>]"
    by auto
  with l m run d' show ?thesis by blast
qed

subsection \<open>The credential of a pull\<close>

lemma regionLoop_last:
  "regionLoop c ref rs (auth, found) =
     (if filter (\<lambda>region. Contains ref (ecrHost region)) rs = [] then (auth, found)
      else (credentialOf c (last (filter (\<lambda>region. Contains ref (ecrHost region)) rs)), True))"
  by (induction rs arbitrary: auth found) (auto simp: credentialOf_def)

lemma pullOptions_ecr:
  assumes "Contains ref ''amazonaws.com''"
  shows "pullOptions c ref =
     (if matchingRegions c ref = [] then Inl (ErrUnsupportedECRRegion (ecrRegions c))
      else Inr (credentialOf c (last (matchingRegions c ref))))"
  by (simp add: pullOptions_def assms regionLoop_last matchingRegions_def)

lemma last_of_singleton_set:
  assumes s: "set xs = {x}"
  shows "xs \<noteq> []" and "last xs = x"
proof -
  show ne: "xs \<noteq> []"
  proof
    assume "xs = []"
    with s show False by simp
  qed
  then have "last xs \<in> set xs"
    by simp
  then show "last xs = x"
    unfolding s by simp
qed

lemma pullOptions_other: "\<not> Contains ref ''amazonaws.com'' \<Longrightarrow> pullOptions c ref = Inr []"
  by (simp add: pullOptions_def)

lemma pullImage_pullCalls:
  assumes "pullOptions c ref = Inr auth" and "pullImage e c ref w = Some (r, w')"
  shows "w' = w\<lparr>pullCalls := pullCalls w @ [(ref, auth)]\<rparr>"
  using assms by (auto simp: pullImage_def Let_def split: sum.splits option.splits)

lemma pullImage_refused:
  assumes "pullOptions c ref = Inl err"
  shows "pullImage e c ref w = Some (Some err, w)"
  using assms by (simp add: pullImage_def)

text \<open>
  C5, as the code has it. For a reference that holds \<open>amazonaws.com\<close>: when the host
  pattern of some configured region occurs in the reference, the pull is made with the
  credential of the last configured region whose pattern occurs, which is that region's
  own credential when no other configured region matches; when no configured region's
  pattern occurs, \<open>pullImage\<close> returns the unsupported-region error and the world is
  as before, so no pull was made.
\<close>

theorem pullImage_region_credential:
  assumes "Contains ref ''amazonaws.com''"
  shows "(matchingRegions c ref \<noteq> []
            \<longrightarrow> pullOptions c ref = Inr (credentialOf c (last (matchingRegions c ref)))
              \<and> (\<forall>r w'. pullImage e c ref w = Some (r, w')
                    \<longrightarrow> pullCalls w' = pullCalls w @ [(ref, credentialOf c (last (matchingRegions c ref)))]))
       \<and> (set (matchingRegions c ref) = {region}
            \<longrightarrow> pullOptions c ref = Inr (credentialOf c region))
       \<and> (matchingRegions c ref = []
            \<longrightarrow> pullImage e c ref w = Some (Some (ErrUnsupportedECRRegion (ecrRegions c)), w))"
proof (intro conjI impI)
  assume m: "matchingRegions c ref \<noteq> []"
  then show o: "pullOptions c ref = Inr (credentialOf c (last (matchingRegions c ref)))"
    by (simp add: pullOptions_ecr [OF assms])
  show "\<forall>r w'. pullImage e c ref w = Some (r, w')
          \<longrightarrow> pullCalls w' = pullCalls w @ [(ref, credentialOf c (last (matchingRegions c ref)))]"
  proof (intro allI impI)
    fix r w'
    assume "pullImage e c ref w = Some (r, w')"
    from pullImage_pullCalls [OF o this]
    show "pullCalls w' = pullCalls w @ [(ref, credentialOf c (last (matchingRegions c ref)))]"
      by simp
  qed
next
  assume s: "set (matchingRegions c ref) = {region}"
  from last_of_singleton_set [OF s]
  show "pullOptions c ref = Inr (credentialOf c region)"
    by (simp add: pullOptions_ecr [OF assms])
next
  assume "matchingRegions c ref = []"
  then have "pullOptions c ref = Inl (ErrUnsupportedECRRegion (ecrRegions c))"
    by (simp add: pullOptions_ecr [OF assms])
  then show "pullImage e c ref w = Some (Some (ErrUnsupportedECRRegion (ecrRegions c)), w)"
    by (rule pullImage_refused)
qed

lemma matchingRegions_ireland: "matchingRegions twoRegionConfig irelandRef = [''eu-west-1'']"
  by (simp add: matchingRegions_def twoRegionConfig_def jdkConfig_def irelandRef_def ecrHost_def)

lemma matchingRegions_virginia: "matchingRegions twoRegionConfig virginiaRef = []"
  by (simp add: matchingRegions_def twoRegionConfig_def jdkConfig_def virginiaRef_def ecrHost_def)

theorem pullImage_region_credential_witness:
  "Contains irelandRef ''amazonaws.com'' \<and> Contains virginiaRef ''amazonaws.com''
   \<and> matchingRegions twoRegionConfig irelandRef = [''eu-west-1'']
   \<and> pullOptions twoRegionConfig irelandRef = Inr ''credential-eu-west-1''
   \<and> matchingRegions twoRegionConfig virginiaRef = []
   \<and> pullImage quietEnv twoRegionConfig virginiaRef noWorld =
       Some (Some (ErrUnsupportedECRRegion [''eu-west-1'', ''eu-west-2'']), noWorld)"
proof -
  have a: "Contains irelandRef ''amazonaws.com''"
    by (simp add: irelandRef_def)
  have b: "Contains virginiaRef ''amazonaws.com''"
    by (simp add: virginiaRef_def)
  have cr: "credentialOf twoRegionConfig ''eu-west-1'' = ''credential-eu-west-1''"
    by (simp add: credentialOf_def twoRegionConfig_def)
  have rs: "ecrRegions twoRegionConfig = [''eu-west-1'', ''eu-west-2'']"
    by (simp add: twoRegionConfig_def)
  have "pullOptions twoRegionConfig irelandRef = Inr ''credential-eu-west-1''"
    using pullImage_region_credential [where ref = irelandRef and c = twoRegionConfig
        and region = "''eu-west-1''" and e = quietEnv and w = noWorld, OF a]
      matchingRegions_ireland cr by simp
  moreover have "pullImage quietEnv twoRegionConfig virginiaRef noWorld =
       Some (Some (ErrUnsupportedECRRegion [''eu-west-1'', ''eu-west-2'']), noWorld)"
    using pullImage_region_credential [where ref = virginiaRef and c = twoRegionConfig
        and region = "''eu-west-1''" and e = quietEnv and w = noWorld, OF b]
      matchingRegions_virginia rs by simp
  ultimately show ?thesis
    using a b matchingRegions_ireland matchingRegions_virginia by blast
qed

text \<open>
  As the specification words it, the property fails where two configured regions
  match: the registry host of \<open>mirrorRef\<close> is in \<open>eu-west-1\<close>, which is configured,
  and the pull gets the credential of \<open>eu-west-2\<close>, whose pattern occurs in the
  repository path.
\<close>

theorem pullImage_region_credential_counterexample:
  "Contains mirrorRef ''amazonaws.com''
   \<and> ''eu-west-1'' \<in> set (ecrRegions twoRegionConfig)
   \<and> Contains (registryHost mirrorRef) (ecrHost ''eu-west-1'')
   \<and> \<not> Contains (registryHost mirrorRef) (ecrHost ''eu-west-2'')
   \<and> ecrCredentials twoRegionConfig ''eu-west-1'' = Some ''credential-eu-west-1''
   \<and> pullOptions twoRegionConfig mirrorRef = Inr ''credential-eu-west-2''
   \<and> pullOptions twoRegionConfig mirrorRef \<noteq> Inr ''credential-eu-west-1''"
  by (simp add: mirrorRef_def twoRegionConfig_def jdkConfig_def registryHost_def ecrHost_def
      pullOptions_def)

subsection \<open>The pull loop\<close>

lemma pullLoop_timeout:
  "timeout < now k \<Longrightarrow> pullLoop now timeout ref k ds event = Some (Some (ErrTimedOut ref))"
  by (subst pullLoop.simps) (simp split: option.splits)

lemma pullLoop_eof_nil:
  "now k \<le> timeout \<Longrightarrow> pullLoop now timeout ref k [] None = Some (Some PanicNilDereference)"
  by (subst pullLoop.simps) (simp split: option.splits)

lemma pullLoop_eof_event:
  "now k \<le> timeout \<Longrightarrow>
   pullLoop now timeout ref k [] (Some ev) =
     (if terminalStatus (Status ev) then Some None
      else pullLoop now timeout ref (Suc k) [] (Some ev))"
  by (subst pullLoop.simps) (simp split: option.splits)

lemma pullLoop_error:
  "now k \<le> timeout \<Longrightarrow>
   pullLoop now timeout ref k (DecError msg # ds) event = Some (Some (ErrDecodingPullOutput msg))"
  by (subst pullLoop.simps) (simp split: option.splits)

lemma pullLoop_null:
  "now k \<le> timeout \<Longrightarrow>
   pullLoop now timeout ref k (DecNull # ds) event = Some (Some PanicNilDereference)"
  by (subst pullLoop.simps) (simp split: option.splits)

lemma pullLoop_object:
  "now k \<le> timeout \<Longrightarrow>
   pullLoop now timeout ref k (DecObject j # ds) event =
     (if terminalStatus (Status (decodeInto j event)) then Some None
      else pullLoop now timeout ref (Suc k) ds (Some (decodeInto j event)))"
  by (subst pullLoop.simps) (simp split: option.splits)

lemma terminalStatus_empty [simp]: "\<not> terminalStatus []"
  by (simp add: terminalStatus_def)

lemma Status_decodeInto:
  "Status (decodeInto j event) =
     (case jStatus j of
        Some s \<Rightarrow> s
      | None \<Rightarrow> (case event of None \<Rightarrow> [] | Some ev \<Rightarrow> Status ev))"
  by (simp add: decodeInto_def Let_def split: option.splits)

lemma terminal_decodeInto:
  assumes "\<forall>ev. event = Some ev \<longrightarrow> \<not> terminalStatus (Status ev)"
  shows "terminalStatus (Status (decodeInto j event)) \<longleftrightarrow> isTerminalEvent j"
  using assms by (auto simp: Status_decodeInto isTerminalEvent_def split: option.splits)

text \<open>At the end of the input the loop turns until the clock is past the deadline.\<close>

lemma pullLoop_eof_spin:
  assumes "k \<le> K" and "timeout < now K" and "\<not> terminalStatus (Status ev)"
  shows "pullLoop now timeout ref k [] (Some ev) = Some (Some (ErrTimedOut ref))"
  using assms
proof (induction "K - k" arbitrary: k)
  case 0
  then have "k = K" by simp
  with 0 show ?case by (simp add: pullLoop_timeout)
next
  case (Suc n)
  show ?case
  proof (cases "timeout < now k")
    case True
    then show ?thesis by (simp add: pullLoop_timeout)
  next
    case False
    with Suc have "pullLoop now timeout ref (Suc k) [] (Some ev) = Some (Some (ErrTimedOut ref))"
      by (intro Suc.hyps(1)) auto
    with False Suc.prems show ?thesis
      by (simp add: pullLoop_eof_event)
  qed
qed

lemma first_or_later:
  "(\<exists>i<Suc n. P ((x # xs) ! i) \<and> (\<forall>m\<le>i. Q (k + m))) \<longleftrightarrow>
     Q k \<and> (P x \<or> (\<exists>i<n. P (xs ! i) \<and> (\<forall>m\<le>i. Q (Suc k + m))))"
proof
  assume "\<exists>i<Suc n. P ((x # xs) ! i) \<and> (\<forall>m\<le>i. Q (k + m))"
  then obtain i where i: "i < Suc n" "P ((x # xs) ! i)" "\<forall>m\<le>i. Q (k + m)"
    by blast
  from i(3) have q: "Q k"
    by (metis add.right_neutral le0)
  show "Q k \<and> (P x \<or> (\<exists>i<n. P (xs ! i) \<and> (\<forall>m\<le>i. Q (Suc k + m))))"
  proof (cases i)
    case 0
    with i q show ?thesis by simp
  next
    case (Suc i')
    with i have "i' < n" "P (xs ! i')" by simp_all
    moreover have "\<forall>m\<le>i'. Q (Suc k + m)"
    proof (intro allI impI)
      fix m assume "m \<le> i'"
      then have "Suc m \<le> i" using Suc by simp
      with i(3) have "Q (k + Suc m)" by blast
      then show "Q (Suc k + m)" by simp
    qed
    ultimately show ?thesis using q by blast
  qed
next
  assume a: "Q k \<and> (P x \<or> (\<exists>i<n. P (xs ! i) \<and> (\<forall>m\<le>i. Q (Suc k + m))))"
  show "\<exists>i<Suc n. P ((x # xs) ! i) \<and> (\<forall>m\<le>i. Q (k + m))"
  proof (cases "P x")
    case True
    with a have "0 < Suc n \<and> P ((x # xs) ! 0) \<and> (\<forall>m\<le>0. Q (k + m))"
      by simp
    then show ?thesis by blast
  next
    case False
    with a obtain i where i: "i < n" "P (xs ! i)" "\<forall>m\<le>i. Q (Suc k + m)"
      by blast
    have "\<forall>m\<le>Suc i. Q (k + m)"
    proof (intro allI impI)
      fix m assume m: "m \<le> Suc i"
      show "Q (k + m)"
      proof (cases m)
        case 0
        with a show ?thesis by simp
      next
        case (Suc m')
        with m i(3) have "Q (Suc k + m')" by simp
        with Suc show ?thesis by simp
      qed
    qed
    with i have "Suc i < Suc n \<and> P ((x # xs) ! Suc i) \<and> (\<forall>m\<le>Suc i. Q (k + m))"
      by simp
    then show ?thesis by blast
  qed
qed

lemma pullLoop_wellformed:
  assumes "k \<le> K" and "timeout < now K"
    and "event = None \<longrightarrow> js \<noteq> []"
    and "\<forall>ev. event = Some ev \<longrightarrow> \<not> terminalStatus (Status ev)"
  shows "pullLoop now timeout ref k (map DecObject js) event =
     Some (if \<exists>i<length js. isTerminalEvent (js ! i) \<and> (\<forall>m\<le>i. now (k + m) \<le> timeout)
           then None else Some (ErrTimedOut ref))"
  using assms
proof (induction js arbitrary: k event)
  case Nil
  then obtain ev where "event = Some ev" "\<not> terminalStatus (Status ev)"
    by auto
  with Nil show ?case
    by (simp add: pullLoop_eof_spin)
next
  case (Cons j js)
  show ?case
  proof (cases "timeout < now k")
    case True
    then have "\<not> (\<exists>i<length (j # js). isTerminalEvent ((j # js) ! i) \<and> (\<forall>m\<le>i. now (k + m) \<le> timeout))"
      by (metis add.right_neutral le0 not_le)
    with True show ?thesis
      by (simp add: pullLoop_timeout)
  next
    case False
    then have intime: "now k \<le> timeout" by simp
    with Cons.prems have "k \<noteq> K" by auto
    with Cons.prems have k: "Suc k \<le> K" by simp
    have tm: "terminalStatus (Status (decodeInto j event)) \<longleftrightarrow> isTerminalEvent j"
      using Cons.prems(4) by (rule terminal_decodeInto)
    have shift: "(\<exists>i<length (j # js). isTerminalEvent ((j # js) ! i) \<and> (\<forall>m\<le>i. now (k + m) \<le> timeout))
        \<longleftrightarrow> isTerminalEvent j \<or> (\<exists>i<length js. isTerminalEvent (js ! i) \<and> (\<forall>m\<le>i. now (Suc k + m) \<le> timeout))"
      using first_or_later [of "length js" isTerminalEvent j js "\<lambda>t. now t \<le> timeout" k] intime
      by simp
    show ?thesis
    proof (cases "isTerminalEvent j")
      case True
      with intime tm shift show ?thesis
        by (simp add: pullLoop_object)
    next
      case False
      have "pullLoop now timeout ref (Suc k) (map DecObject js) (Some (decodeInto j event)) =
         Some (if \<exists>i<length js. isTerminalEvent (js ! i) \<and> (\<forall>m\<le>i. now (Suc k + m) \<le> timeout)
               then None else Some (ErrTimedOut ref))"
        using k Cons.prems(2) False tm by (intro Cons.IH) auto
      with intime tm False shift show ?thesis
        by (simp add: pullLoop_object)
    qed
  qed
qed

lemma pullImage_loop:
  assumes "pullOptions c ref = Inr auth" and "ImagePull e ref auth = Inr events"
    and "pullLoop (Now e ref) (Now e ref 0 + tenMinutes) ref 1 events None = Some r"
  shows "pullImage e c ref w = Some (r, w\<lparr>pullCalls := pullCalls w @ [(ref, auth)]\<rparr>)"
  using assms by (simp add: pullImage_def Let_def)

text \<open>
  C1, as the code has it. The pull has produced a stream that is not empty and holds
  well-formed event objects only, and the clock gets past the deadline at some call.
  Then \<open>pullImage\<close> returns: nil when an event whose status holds one of the two texts
  is decoded in an iteration up to which no deadline check has found the clock past
  \<open>Now e ref 0 + tenMinutes\<close>, and the timeout error otherwise.
\<close>

theorem pullImage_success_or_timeout:
  assumes "pullOptions c ref = Inr auth"
    and "ImagePull e ref auth = Inr (map DecObject js)" and "js \<noteq> []"
    and "1 \<le> K" and "Now e ref 0 + tenMinutes < Now e ref K"
  shows "pullImage e c ref w =
     Some (if \<exists>i<length js. isTerminalEvent (js ! i)
                \<and> (\<forall>m\<le>i. Now e ref (Suc m) \<le> Now e ref 0 + tenMinutes)
           then None else Some (ErrTimedOut ref),
           w\<lparr>pullCalls := pullCalls w @ [(ref, auth)]\<rparr>)"
proof -
  have "pullLoop (Now e ref) (Now e ref 0 + tenMinutes) ref 1 (map DecObject js) None =
     Some (if \<exists>i<length js. isTerminalEvent (js ! i)
                \<and> (\<forall>m\<le>i. Now e ref (1 + m) \<le> Now e ref 0 + tenMinutes)
           then None else Some (ErrTimedOut ref))"
    using assms(3-5) by (intro pullLoop_wellformed) auto
  then show ?thesis
    using pullImage_loop [OF assms(1,2)] by simp
qed

lemma pullOptions_plain [simp]:
  "pullOptions jdkConfig ''nginx:1.25'' = Inr []"
  "pullOptions jdkConfig ''stalled:1'' = Inr []"
  "pullOptions jdkConfig ''broken:1'' = Inr []"
  "pullOptions jdkConfig ''garbled:1'' = Inr []"
  "pullOptions jdkConfig ''empty:1'' = Inr []"
  by (simp_all add: pullOptions_def)

lemma deadline_pullEnv: "Now pullEnv ref 0 + tenMinutes < Now pullEnv ref 601"
  by (simp add: pullEnv_def steadyClock_def tenMinutes_def)

lemma intime_pullEnv: "m \<le> 2 \<Longrightarrow> Now pullEnv ref m \<le> Now pullEnv ref 0 + tenMinutes"
  by (simp add: pullEnv_def steadyClock_def tenMinutes_def)

theorem pullImage_success_or_timeout_witness:
  "pullImage pullEnv jdkConfig ''nginx:1.25'' noWorld = Some (None, pulledWorld ''nginx:1.25'')
   \<and> pullImage pullEnv jdkConfig ''stalled:1'' noWorld =
       Some (Some (ErrTimedOut ''stalled:1''), pulledWorld ''stalled:1'')"
proof -
  have s1: "ImagePull pullEnv ''nginx:1.25'' [] = Inr (map DecObject [pullingEvent, downloadedEvent])"
    by (simp add: pullEnv_def)
  have s2: "ImagePull pullEnv ''stalled:1'' [] = Inr (map DecObject [pullingEvent])"
    by (simp add: pullEnv_def)
  have t: "isTerminalEvent downloadedEvent" "\<not> isTerminalEvent pullingEvent"
    by (simp_all add: isTerminalEvent_def downloadedEvent_def pullingEvent_def terminalStatus_def)
  have "\<forall>m\<le>1. Now pullEnv ''nginx:1.25'' (Suc m) \<le> Now pullEnv ''nginx:1.25'' 0 + tenMinutes"
    by (simp add: intime_pullEnv)
  with t have yes: "\<exists>i<length [pullingEvent, downloadedEvent].
      isTerminalEvent ([pullingEvent, downloadedEvent] ! i)
      \<and> (\<forall>m\<le>i. Now pullEnv ''nginx:1.25'' (Suc m) \<le> Now pullEnv ''nginx:1.25'' 0 + tenMinutes)"
    by (intro exI [of _ 1]) simp
  have no: "\<not> (\<exists>i<length [pullingEvent].
      isTerminalEvent ([pullingEvent] ! i)
      \<and> (\<forall>m\<le>i. Now pullEnv ''stalled:1'' (Suc m) \<le> Now pullEnv ''stalled:1'' 0 + tenMinutes))"
    using t by simp
  have "pullImage pullEnv jdkConfig ''nginx:1.25'' noWorld = Some (None, pulledWorld ''nginx:1.25'')"
    using pullImage_success_or_timeout [OF pullOptions_plain(1) s1 _ _ deadline_pullEnv, of noWorld] yes
    by (simp add: pulledWorld_def noWorld_def)
  moreover have "pullImage pullEnv jdkConfig ''stalled:1'' noWorld =
       Some (Some (ErrTimedOut ''stalled:1''), pulledWorld ''stalled:1'')"
    using pullImage_success_or_timeout [OF pullOptions_plain(2) s2 _ _ deadline_pullEnv, of noWorld] no
    by (simp add: pulledWorld_def noWorld_def)
  ultimately show ?thesis by simp
qed

text \<open>
  As the specification words it, the property fails on a stream with a malformed
  event: no event with one of the two texts is decoded, and the result is the decoding
  error, not the timeout error.
\<close>

theorem pullImage_success_or_timeout_counterexample:
  "ImagePull pullEnv ''broken:1'' [] = Inr [DecObject pullingEvent, DecError ''unexpected EOF'']
   \<and> \<not> isTerminalEvent pullingEvent
   \<and> pullImage pullEnv jdkConfig ''broken:1'' noWorld =
       Some (Some (ErrDecodingPullOutput ''unexpected EOF''), pulledWorld ''broken:1'')"
proof -
  have s: "ImagePull pullEnv ''broken:1'' [] = Inr [DecObject pullingEvent, DecError ''unexpected EOF'']"
    by (simp add: pullEnv_def)
  have t: "\<not> isTerminalEvent pullingEvent"
    by (simp add: isTerminalEvent_def pullingEvent_def terminalStatus_def)
  then have t': "\<not> terminalStatus (Status (decodeInto pullingEvent None))"
    by (simp add: terminal_decodeInto)
  have "pullLoop (Now pullEnv ''broken:1'') (Now pullEnv ''broken:1'' 0 + tenMinutes) ''broken:1'' 1
          [DecObject pullingEvent, DecError ''unexpected EOF''] None =
        Some (Some (ErrDecodingPullOutput ''unexpected EOF''))"
    using t' intime_pullEnv [of "Suc 0" "''broken:1''"] intime_pullEnv [of "Suc (Suc 0)" "''broken:1''"]
    by (simp add: pullLoop_object pullLoop_error)
  from pullImage_loop [OF pullOptions_plain(3) s this, of noWorld] s t show ?thesis
    by (simp add: pulledWorld_def noWorld_def)
qed

lemma pullLoop_panic_only:
  assumes "pullLoop now timeout ref k ds event = Some r"
  shows "r = Some PanicNilDereference \<longrightarrow> (event = None \<and> ds = []) \<or> DecNull \<in> set ds"
proof (rule pullLoop.raw_induct
    [where P = "\<lambda>now timeout ref k ds event r.
        r = Some PanicNilDereference \<longrightarrow> (event = None \<and> ds = []) \<or> DecNull \<in> set ds",
      OF _ assms])
  fix f :: "(nat \<Rightarrow> int) \<Rightarrow> int \<Rightarrow> string \<Rightarrow> nat \<Rightarrow> decoded list \<Rightarrow> Event option \<Rightarrow> error option option"
  fix now timeout ref k ds event r
  assume IH: "\<And>now timeout ref k ds event r. f now timeout ref k ds event = Some r \<Longrightarrow>
      r = Some PanicNilDereference \<longrightarrow> (event = None \<and> ds = []) \<or> DecNull \<in> set ds"
  assume body: "(if timeout < now k then Some (Some (ErrTimedOut ref))
      else (case Decode ds event of
              (Some (DecodeFailed msg), event', ds') \<Rightarrow> Some (Some (ErrDecodingPullOutput msg))
            | (_, None, ds') \<Rightarrow> Some (Some PanicNilDereference)
            | (_, Some ev, ds') \<Rightarrow>
                if terminalStatus (Status ev) then Some None
                else f now timeout ref (Suc k) ds' (Some ev))) = Some r"
  show "r = Some PanicNilDereference \<longrightarrow> (event = None \<and> ds = []) \<or> DecNull \<in> set ds"
  proof (cases ds)
    case Nil
    with body show ?thesis
      by (cases event) (auto split: if_splits dest!: IH)
  next
    case (Cons d rest)
    with body show ?thesis
      by (cases d) (auto split: if_splits option.splits dest!: IH)
  qed
qed

text \<open>
  C2, as the code has it. At an iteration whose deadline check passes: the end of the
  stream with no event decoded, and the literal \<open>null\<close>, leave \<open>event\<close> nil and the
  read of its status is a nil dereference; a malformed event (a decoding error other
  than the end of the stream) makes \<open>pullImage\<close> return the decoding error, which is
  an error value. A nil dereference has no other cause.
\<close>

theorem pullImage_nil_dereference:
  assumes "pullOptions c ref = Inr auth"
    and "Now e ref 1 \<le> Now e ref 0 + tenMinutes"
  shows "(ImagePull e ref auth = Inr []
            \<longrightarrow> pullImage e c ref w =
                  Some (Some PanicNilDereference, w\<lparr>pullCalls := pullCalls w @ [(ref, auth)]\<rparr>))
       \<and> (ImagePull e ref auth = Inr (DecNull # ds)
            \<longrightarrow> pullImage e c ref w =
                  Some (Some PanicNilDereference, w\<lparr>pullCalls := pullCalls w @ [(ref, auth)]\<rparr>))
       \<and> (ImagePull e ref auth = Inr (DecError msg # ds)
            \<longrightarrow> pullImage e c ref w =
                  Some (Some (ErrDecodingPullOutput msg), w\<lparr>pullCalls := pullCalls w @ [(ref, auth)]\<rparr>)
              \<and> \<not> isPanic (ErrDecodingPullOutput msg))
       \<and> (\<forall>events w'. ImagePull e ref auth = Inr events
              \<and> pullImage e c ref w = Some (Some PanicNilDereference, w')
            \<longrightarrow> events = [] \<or> DecNull \<in> set events)"
proof (intro conjI impI allI)
  assume s: "ImagePull e ref auth = Inr []"
  show "pullImage e c ref w =
      Some (Some PanicNilDereference, w\<lparr>pullCalls := pullCalls w @ [(ref, auth)]\<rparr>)"
    by (rule pullImage_loop [OF assms(1) s]) (use assms(2) in \<open>simp add: pullLoop_eof_nil\<close>)
next
  assume s: "ImagePull e ref auth = Inr (DecNull # ds)"
  show "pullImage e c ref w =
      Some (Some PanicNilDereference, w\<lparr>pullCalls := pullCalls w @ [(ref, auth)]\<rparr>)"
    by (rule pullImage_loop [OF assms(1) s]) (use assms(2) in \<open>simp add: pullLoop_null\<close>)
next
  assume s: "ImagePull e ref auth = Inr (DecError msg # ds)"
  show "pullImage e c ref w =
      Some (Some (ErrDecodingPullOutput msg), w\<lparr>pullCalls := pullCalls w @ [(ref, auth)]\<rparr>)"
    by (rule pullImage_loop [OF assms(1) s]) (use assms(2) in \<open>simp add: pullLoop_error\<close>)
next
  show "\<not> isPanic (ErrDecodingPullOutput msg)"
    by simp
next
  fix events w'
  assume a: "ImagePull e ref auth = Inr events
               \<and> pullImage e c ref w = Some (Some PanicNilDereference, w')"
  then have "pullLoop (Now e ref) (Now e ref 0 + tenMinutes) ref 1 events None =
      Some (Some PanicNilDereference)"
    using assms(1) by (auto simp: pullImage_def Let_def split: option.splits)
  from pullLoop_panic_only [OF this] show "events = [] \<or> DecNull \<in> set events"
    by simp
qed

theorem pullImage_nil_dereference_witness:
  "pullOptions jdkConfig ''empty:1'' = Inr []
   \<and> Now pullEnv ''empty:1'' 1 \<le> Now pullEnv ''empty:1'' 0 + tenMinutes
   \<and> ImagePull pullEnv ''empty:1'' [] = Inr []
   \<and> pullImage pullEnv jdkConfig ''empty:1'' noWorld =
       Some (Some PanicNilDereference, pulledWorld ''empty:1'')
   \<and> isPanic PanicNilDereference"
proof -
  have t: "Now pullEnv ''empty:1'' 1 \<le> Now pullEnv ''empty:1'' 0 + tenMinutes"
    by (simp add: intime_pullEnv)
  have s: "ImagePull pullEnv ''empty:1'' [] = Inr []"
    by (simp add: pullEnv_def)
  have "pullImage pullEnv jdkConfig ''empty:1'' noWorld =
       Some (Some PanicNilDereference, pulledWorld ''empty:1'')"
    using pullImage_nil_dereference [OF pullOptions_plain(5) t, where w = noWorld] s
    by (simp add: pulledWorld_def noWorld_def)
  with t s show ?thesis
    by simp
qed

text \<open>
  The specification names a stream with a malformed event as one that ends in the
  crash: on such a stream \<open>pullImage\<close> returns an error value.
\<close>

theorem pullImage_nil_dereference_counterexample:
  "ImagePull pullEnv ''garbled:1'' [] = Inr [DecError ''invalid character'']
   \<and> pullImage pullEnv jdkConfig ''garbled:1'' noWorld =
       Some (Some (ErrDecodingPullOutput ''invalid character''), pulledWorld ''garbled:1'')
   \<and> \<not> isPanic (ErrDecodingPullOutput ''invalid character'')"
proof -
  have s: "ImagePull pullEnv ''garbled:1'' [] = Inr [DecError ''invalid character'']"
    by (simp add: pullEnv_def)
  have "pullLoop (Now pullEnv ''garbled:1'') (Now pullEnv ''garbled:1'' 0 + tenMinutes) ''garbled:1'' 1
          [DecError ''invalid character''] None =
        Some (Some (ErrDecodingPullOutput ''invalid character''))"
    using intime_pullEnv [of 1 "''garbled:1''"] by (simp add: pullLoop_error)
  from pullImage_loop [OF pullOptions_plain(4) s this, of noWorld] s show ?thesis
    by (simp add: pulledWorld_def noWorld_def)
qed

subsection \<open>Writing the reports\<close>

lemma appended_refl: "files w path \<noteq> None \<Longrightarrow> appended w path [] w"
  by (auto simp: appended_def fileContent_def)

lemma appended_trans:
  assumes "appended w path s w1" and "appended w1 path t w2"
  shows "appended w path (s @ t) w2"
  using assms by (simp add: appended_def fileContent_def)

lemma appended_exists: "appended w path t w' \<Longrightarrow> files w' path \<noteq> None"
  by (simp add: appended_def)

lemma WriteString_ok:
  assumes "\<forall>n. WriteError e n = None"
  shows "fst (WriteString e path s w) = None" and "appended w path s (snd (WriteString e path s w))"
  by (simp_all add: WriteString_def assms appended_def fileContent_def)

lemma writePieces_ok:
  assumes "\<forall>n. WriteError e n = None" and "files w path \<noteq> None"
  shows "fst (writePieces e path ss (err, w)) = (if ss = [] then err else None)
         \<and> appended w path (concat ss) (snd (writePieces e path ss (err, w)))"
  using assms(2)
proof (induction ss arbitrary: err w)
  case Nil
  then show ?case by (simp add: appended_refl)
next
  case (Cons s ss)
  obtain err1 w1 where step: "WriteString e path s w = (err1, w1)"
    by (cases "WriteString e path s w")
  with WriteString_ok [OF assms(1), where path = path and s = s and w = w]
  have err1: "err1 = None" and w1: "appended w path s w1"
    by simp_all
  from Cons.IH [OF appended_exists [OF w1], of err1]
  have "fst (writePieces e path ss (err1, w1)) = None"
    and "appended w1 path (concat ss) (snd (writePieces e path ss (err1, w1)))"
    by (simp_all add: err1)
  with step w1 show ?case
    by (simp add: appended_trans)
qed

lemma concat_nonECRPieces: "concat (nonECRPieces img details) = nonECRLine (img, details)"
  by (simp add: nonECRPieces_def nonECRLine_def)

lemma nonECRLoop_ok:
  assumes "\<forall>n. WriteError e n = None" and "files w path \<noteq> None"
  shows "fst (nonECRLoop e path entries w) = None
         \<and> appended w path (concat (map nonECRLine (filter isNonECR entries)))
              (snd (nonECRLoop e path entries w))"
  using assms(2)
proof (induction entries arbitrary: w)
  case Nil
  then show ?case by (simp add: appended_refl)
next
  case (Cons entry entries)
  obtain img details where entry: "entry = (img, details)"
    by (cases entry)
  show ?case
  proof (cases "isNonECR entry")
    case False
    with Cons entry show ?thesis
      by (simp add: isNonECR_def)
  next
    case True
    have ne: "nonECRPieces img details \<noteq> []"
      by (simp add: nonECRPieces_def)
    obtain err1 w1 where step: "writePieces e path (nonECRPieces img details) (None, w) = (err1, w1)"
      by (cases "writePieces e path (nonECRPieces img details) (None, w)")
    with ne writePieces_ok [OF assms(1) Cons.prems, of "nonECRPieces img details" None]
    have err1: "err1 = None" and w1: "appended w path (nonECRLine (img, details)) w1"
      by (simp_all add: concat_nonECRPieces)
    from True entry have isn: "isNonECR (img, details)" and c: "\<not> Contains img ''amazonaws.com''"
      by (simp_all add: isNonECR_def)
    from Cons.IH [OF appended_exists [OF w1]]
    have r1: "fst (nonECRLoop e path entries w1) = None"
      and r2: "appended w1 path (concat (map nonECRLine (filter isNonECR entries)))
             (snd (nonECRLoop e path entries w1))"
      by simp_all
    have "appended w path (nonECRLine (img, details) @ concat (map nonECRLine (filter isNonECR entries)))
             (snd (nonECRLoop e path entries w1))"
      using w1 r2 by (rule appended_trans)
    with r1 isn c step err1 show ?thesis
      unfolding entry by simp
  qed
qed

lemma rangeMap_set:
  "set (rangeMap m ks) = {(k, v). k \<in> set ks \<and> m k = Some v}"
  by (induction ks) (auto split: option.splits)

lemma rangeMap_keys: "map fst (rangeMap m ks) = filter (\<lambda>k. m k \<noteq> None) ks"
  by (induction ks) (auto split: option.splits)

lemma rangeMap_distinct: "distinct ks \<Longrightarrow> distinct (map fst (rangeMap m ks))"
  by (simp add: rangeMap_keys)

lemma fileContent_openAppend: "fileContent (openAppend path w) p = fileContent w p"
  by (simp add: fileContent_def openAppend_def)

lemma files_openAppend: "files (openAppend path w) path \<noteq> None"
  by (simp add: openAppend_def)

text \<open>
  C6. When the report file opens and no write fails, the file of the non-ECR report is
  extended by one line for each entry of the image mapping whose reference does not
  hold \<open>amazonaws.com\<close>, each such entry once: the reference as it is, a tab, every
  provenance tuple of the image, a newline. No line is written for a reference that
  holds \<open>amazonaws.com\<close>, and no other file changes.
\<close>

theorem outputNonECRImages_report:
  assumes "OpenFile e (nonECRImageResultsPath e c) = None"
    and "\<forall>n. WriteError e n = None"
    and "rangeOrder (dockerImages c) (RangeReport e)"
  shows "\<exists>w'. outputNonECRImages e c w = (None, w')
           \<and> files w' (nonECRImageResultsPath e c) =
               Some (fileContent w (nonECRImageResultsPath e c) @ concat (map nonECRLine (nonECREntries e c)))
           \<and> (\<forall>p. p \<noteq> nonECRImageResultsPath e c \<longrightarrow> files w' p = files w p)
           \<and> distinct (map fst (nonECREntries e c))
           \<and> set (nonECREntries e c) =
               {(img, details). dockerImages c img = Some details \<and> \<not> Contains img ''amazonaws.com''}"
proof -
  let ?path = "nonECRImageResultsPath e c"
  let ?w0 = "openAppend ?path w"
  let ?entries = "rangeMap (dockerImages c) (RangeReport e)"
  obtain err w' where run: "nonECRLoop e ?path ?entries ?w0 = (err, w')"
    by (cases "nonECRLoop e ?path ?entries ?w0")
  with nonECRLoop_ok [OF assms(2) files_openAppend, of ?path ?entries w]
  have err: "err = None"
    and app: "appended ?w0 ?path (concat (map nonECRLine (nonECREntries e c))) w'"
    by (simp_all add: nonECREntries_def)
  have out: "outputNonECRImages e c w = (None, w')"
    using run err by (simp add: outputNonECRImages_def assms(1))
  have content: "files w' ?path =
      Some (fileContent w ?path @ concat (map nonECRLine (nonECREntries e c)))"
    using app by (simp add: appended_def fileContent_openAppend)
  have others: "\<forall>p. p \<noteq> ?path \<longrightarrow> files w' p = files w p"
    using app by (simp add: appended_def openAppend_def)
  have d: "distinct (map fst (nonECREntries e c))"
    using assms(3) by (simp add: nonECREntries_def rangeOrder_def rangeMap_distinct distinct_map_filter)
  have s: "set (nonECREntries e c) =
      {(img, details). dockerImages c img = Some details \<and> \<not> Contains img ''amazonaws.com''}"
    using assms(3) by (auto simp: nonECREntries_def rangeOrder_def rangeMap_set isNonECR_def)
  from out content others d s show ?thesis
    by blast
qed

lemma rangeOrder_mixed: "rangeOrder (dockerImages mixedConfig) (RangeReport reportEnv)"
  by (auto simp: rangeOrder_def mixedConfig_def reportEnv_def quietEnv_def irelandRef_def)

lemma nonECREntries_mixed:
  "nonECREntries reportEnv mixedConfig =
     [(''nginx:1.25'', [\<lparr>podName = ''web-1'', containerName = ''proxy'', namespace = ''shop''\<rparr>,
                       \<lparr>podName = ''web-2'', containerName = ''proxy'', namespace = ''shop''\<rparr>])]"
  by (simp add: nonECREntries_def mixedConfig_def reportEnv_def quietEnv_def irelandRef_def isNonECR_def)

theorem outputNonECRImages_report_witness:
  "OpenFile reportEnv (nonECRImageResultsPath reportEnv mixedConfig) = None
   \<and> rangeOrder (dockerImages mixedConfig) (RangeReport reportEnv)
   \<and> nonECRImageResultsPath reportEnv mixedConfig = ''non-ecr-images-prod-cluster-1-Nov-2026-06:01.txt''
   \<and> (\<exists>w'. outputNonECRImages reportEnv mixedConfig noWorld = (None, w')
         \<and> files w' ''non-ecr-images-prod-cluster-1-Nov-2026-06:01.txt'' =
             Some (''nginx:1.25'' @ [CHR 0x09]
                   @ ''(podName: web-1, containerName: proxy, namespace: shop) ''
                   @ ''(podName: web-2, containerName: proxy, namespace: shop) '' @ [CHR 0x0A]))"
proof -
  have o: "OpenFile reportEnv (nonECRImageResultsPath reportEnv mixedConfig) = None"
    by (simp add: reportEnv_def quietEnv_def)
  have wr: "\<forall>n. WriteError reportEnv n = None"
    by (simp add: reportEnv_def quietEnv_def)
  have p: "nonECRImageResultsPath reportEnv mixedConfig = ''non-ecr-images-prod-cluster-1-Nov-2026-06:01.txt''"
    by (simp add: nonECRImageResultsPath_def reportEnv_def quietEnv_def mixedConfig_def
        twoRegionConfig_def jdkConfig_def)
  have l: "concat (map nonECRLine (nonECREntries reportEnv mixedConfig)) =
      ''nginx:1.25'' @ [CHR 0x09]
        @ ''(podName: web-1, containerName: proxy, namespace: shop) ''
        @ ''(podName: web-2, containerName: proxy, namespace: shop) '' @ [CHR 0x0A]"
    by (simp add: nonECREntries_mixed nonECRLine_def nonECRDetail_def)
  have f: "fileContent noWorld q = []" for q
    by (simp add: fileContent_def noWorld_def)
  from outputNonECRImages_report [OF o wr rangeOrder_mixed, of noWorld]
  obtain w' where "outputNonECRImages reportEnv mixedConfig noWorld = (None, w')"
    and "files w' (nonECRImageResultsPath reportEnv mixedConfig) =
      Some (fileContent noWorld (nonECRImageResultsPath reportEnv mixedConfig)
            @ concat (map nonECRLine (nonECREntries reportEnv mixedConfig)))"
    by blast
  then have "\<exists>w'. outputNonECRImages reportEnv mixedConfig noWorld = (None, w')
         \<and> files w' ''non-ecr-images-prod-cluster-1-Nov-2026-06:01.txt'' =
             Some (''nginx:1.25'' @ [CHR 0x09]
                   @ ''(podName: web-1, containerName: proxy, namespace: shop) ''
                   @ ''(podName: web-2, containerName: proxy, namespace: shop) '' @ [CHR 0x0A])"
    unfolding l f p by simp
  with o rangeOrder_mixed p show ?thesis
    by blast
qed

subsection \<open>The images loop\<close>

lemma keywordLoop_imageRef:
  assumes "matchFound r \<longrightarrow> imageRef r = ref"
  shows "matchFound (fst (keywordLoop ref cb ks (r, w))) \<longrightarrow> imageRef (fst (keywordLoop ref cb ks (r, w))) = ref"
  using assms by (induction ks arbitrary: r w) (auto simp: Let_def)

lemma historyLoop_imageRef:
  assumes "matchFound (fst st) \<longrightarrow> imageRef (fst st) = ref"
  shows "matchFound (fst (historyLoop ref kws hs st)) \<longrightarrow> imageRef (fst (historyLoop ref kws hs st)) = ref"
  using assms
proof (induction hs arbitrary: st)
  case Nil
  then show ?case by simp
next
  case (Cons h hs)
  obtain r w where st: "st = (r, w)" by (cases st)
  with Cons.prems have "matchFound (fst (keywordLoop ref (CreatedBy h) kws st))
      \<longrightarrow> imageRef (fst (keywordLoop ref (CreatedBy h) kws st)) = ref"
    using keywordLoop_imageRef [of r ref "CreatedBy h" kws w] by simp
  from Cons.IH [OF this] show ?case by simp
qed

lemma checkImageHistoryForKeyWords_Inr:
  assumes "checkImageHistoryForKeyWords e c ref w = (Inr r, w')"
  shows "(matchFound r \<longleftrightarrow> hasMatch e (dockerImageKeyWords c) ref) \<and> (matchFound r \<longrightarrow> imageRef r = ref)"
proof -
  let ?st = "(\<lparr>matchFound = False, imageRef = [], matchedKeywords = Map.empty\<rparr>, w)"
  from assms obtain hs where hs: "ImageHistory e ref = Inr hs"
    by (cases "ImageHistory e ref") (auto simp: checkImageHistoryForKeyWords_def)
  with assms have r: "r = fst (historyLoop ref (dockerImageKeyWords c) hs ?st)"
    by (auto simp: checkImageHistoryForKeyWords_def split: prod.splits)
  have "matchFound r \<longleftrightarrow> hasMatch e (dockerImageKeyWords c) ref"
    unfolding r historyLoop_found by (simp add: hasMatch_def hs)
  moreover have "matchFound r \<longrightarrow> imageRef r = ref"
    unfolding r by (rule historyLoop_imageRef) simp
  ultimately show ?thesis by simp
qed

text \<open>
  The loop changes nothing of the configuration but the list of offending images, to
  which it adds results that have \<open>matchFound\<close>, each for an image of the loop that
  has a keyword in its history.
\<close>

lemma imagesLoop_offending:
  assumes "imagesLoop e n count imgs c w = Some (err, c', w')"
  shows "\<exists>rs. c' = c\<lparr>offendingDockerImages := offendingDockerImages c @ rs\<rparr>
           \<and> (\<forall>r\<in>set rs. matchFound r \<and> imageRef r \<in> set imgs
                 \<and> hasMatch e (dockerImageKeyWords c) (imageRef r))"
  using assms
proof (induction imgs arbitrary: count c w)
  case Nil
  then have "c' = c\<lparr>offendingDockerImages := offendingDockerImages c @ []\<rparr>"
    by simp
  then show ?case by (intro exI [of _ "[]"]) simp
next
  case (Cons img imgs)
  let ?w0 = "printLine (PullingImage count n img) w"
  have stay: ?case if "c' = c"
    using that by (intro exI [of _ "[]"]) simp
  from Cons.prems obtain perr w1 where pull: "pullImage e c img ?w0 = Some (perr, w1)"
    by (cases "pullImage e c img ?w0") auto
  show ?case
  proof (cases perr)
    case (Some er)
    with Cons.prems pull show ?thesis by (intro stay) simp
  next
    case None
    obtain res w2 where chk: "checkImageHistoryForKeyWords e c img w1 = (res, w2)"
      by (cases "checkImageHistoryForKeyWords e c img w1")
    show ?thesis
    proof (cases res)
      case (Inl er)
      with Cons.prems pull None chk show ?thesis by (intro stay) simp
    next
      case (Inr r)
      let ?new = "if matchFound r then [r] else []"
      let ?c1 = "c\<lparr>offendingDockerImages := offendingDockerImages c @ ?new\<rparr>"
      have c1: "(if matchFound r then c\<lparr>offendingDockerImages := offendingDockerImages c @ [r]\<rparr> else c) = ?c1"
        by simp
      from checkImageHistoryForKeyWords_Inr [OF chk [unfolded Inr]]
      have new: "\<forall>x\<in>set ?new. matchFound x \<and> imageRef x \<in> set (img # imgs)
                   \<and> hasMatch e (dockerImageKeyWords c) (imageRef x)"
        by simp
      obtain cerr w3 where cl: "cleanupImage e img w2 = (cerr, w3)"
        by (cases "cleanupImage e img w2")
      show ?thesis
      proof (cases cerr)
        case (Some er)
        with Cons.prems pull None chk Inr cl have "c' = ?c1"
          by (auto simp: Let_def split: if_splits)
        with new show ?thesis by blast
      next
        case None': None
        with Cons.prems pull None chk Inr cl
        have "imagesLoop e n (Suc count) imgs ?c1 w3 = Some (err, c', w')"
          by (auto simp: Let_def split: if_splits)
        from Cons.IH [OF this] obtain rs where
          rs: "c' = ?c1\<lparr>offendingDockerImages := offendingDockerImages ?c1 @ rs\<rparr>"
          and rs': "\<forall>x\<in>set rs. matchFound x \<and> imageRef x \<in> set imgs
                  \<and> hasMatch e (dockerImageKeyWords ?c1) (imageRef x)"
          by blast
        from rs have "c' = c\<lparr>offendingDockerImages := offendingDockerImages c @ (?new @ rs)\<rparr>"
          by simp
        moreover from new rs' have "\<forall>x\<in>set (?new @ rs). matchFound x \<and> imageRef x \<in> set (img # imgs)
                  \<and> hasMatch e (dockerImageKeyWords c) (imageRef x)"
          by auto
        ultimately show ?thesis by blast
      qed
    qed
  qed
qed

subsection \<open>The match report\<close>

lemma offendingPieces_not_Nil: "offendingPieces e c i \<noteq> []"
  by (simp add: offendingPieces_def Let_def)

lemma offendingLoop_ok:
  assumes "\<forall>n. WriteError e n = None" and "files w path \<noteq> None"
  shows "fst (offendingLoop e c path is w) = None
         \<and> appended w path (concat (map (offendingLine e c) is)) (snd (offendingLoop e c path is w))"
  using assms(2)
proof (induction "is" arbitrary: w)
  case Nil
  then show ?case by (simp add: appended_refl)
next
  case (Cons i "is")
  obtain err1 w1 where step: "writePieces e path (offendingPieces e c i) (None, w) = (err1, w1)"
    by (cases "writePieces e path (offendingPieces e c i) (None, w)")
  with offendingPieces_not_Nil [of e c i]
    writePieces_ok [OF assms(1) Cons.prems, of "offendingPieces e c i" None]
  have err1: "err1 = None" and w1: "appended w path (offendingLine e c i) w1"
    by (simp_all add: offendingLine_def)
  from Cons.IH [OF appended_exists [OF w1]]
  have r1: "fst (offendingLoop e c path is w1) = None"
    and r2: "appended w1 path (concat (map (offendingLine e c) is)) (snd (offendingLoop e c path is w1))"
    by simp_all
  have "appended w path (offendingLine e c i @ concat (map (offendingLine e c) is))
          (snd (offendingLoop e c path is w1))"
    using w1 r2 by (rule appended_trans)
  with r1 step err1 show ?case
    by simp
qed

text \<open>
  C7. An image whose history has no keyword in any layer gets a result without
  \<open>matchFound\<close>; the loop over the images adds to the offending images only results
  with \<open>matchFound\<close>, so such an image is not among them, and the match report has a
  line for each offending image and no other. With no offending image
  \<open>outputOffendingImages\<close> prints the notice and leaves the files as they are; with
  one, it opens the report file and appends the lines, and prints nothing.
\<close>

theorem match_report_only_for_matches:
  "(ImageHistory e ref = Inr hs \<and> \<not> hasMatch e (dockerImageKeyWords c) ref
      \<longrightarrow> (\<exists>r w1. checkImageHistoryForKeyWords e c ref w = (Inr r, w1) \<and> \<not> matchFound r))
   \<and> (imagesLoop e n count imgs c w = Some (err, c', w')
        \<and> \<not> hasMatch e (dockerImageKeyWords c) ref
        \<and> ref \<notin> imageRef ` set (offendingDockerImages c)
      \<longrightarrow> ref \<notin> imageRef ` set (offendingDockerImages c')
          \<and> (\<forall>r\<in>set (offendingDockerImages c'). r \<in> set (offendingDockerImages c) \<or> matchFound r))
   \<and> (offendingDockerImages c = []
      \<longrightarrow> outputOffendingImages e c w = (None, w\<lparr>stdout := stdout w @ [NoImagesMatched]\<rparr>))
   \<and> (offendingDockerImages c \<noteq> [] \<and> OpenFile e (offendingImageResultsPath e c) = None
        \<and> (\<forall>k. WriteError e k = None)
      \<longrightarrow> (\<exists>w2. outputOffendingImages e c w = (None, w2)
            \<and> files w2 (offendingImageResultsPath e c) =
                Some (fileContent w (offendingImageResultsPath e c)
                      @ concat (map (offendingLine e c) (offendingDockerImages c)))
            \<and> stdout w2 = stdout w))"
proof (intro conjI impI)
  assume a: "ImageHistory e ref = Inr hs \<and> \<not> hasMatch e (dockerImageKeyWords c) ref"
  then obtain r w1 where run: "checkImageHistoryForKeyWords e c ref w = (Inr r, w1)"
    using checkImageHistoryForKeyWords_result [of e ref hs c w] by blast
  from checkImageHistoryForKeyWords_Inr [OF run] a have "\<not> matchFound r"
    by simp
  with run show "\<exists>r w1. checkImageHistoryForKeyWords e c ref w = (Inr r, w1) \<and> \<not> matchFound r"
    by blast
next
  assume a: "imagesLoop e n count imgs c w = Some (err, c', w')
        \<and> \<not> hasMatch e (dockerImageKeyWords c) ref
        \<and> ref \<notin> imageRef ` set (offendingDockerImages c)"
  then obtain rs where rs: "c' = c\<lparr>offendingDockerImages := offendingDockerImages c @ rs\<rparr>"
    and each: "\<forall>r\<in>set rs. matchFound r \<and> imageRef r \<in> set imgs
                 \<and> hasMatch e (dockerImageKeyWords c) (imageRef r)"
    using imagesLoop_offending [of e n count imgs c w err c' w'] by blast
  from each a have "ref \<notin> imageRef ` set rs"
    by auto
  with a rs show "ref \<notin> imageRef ` set (offendingDockerImages c')"
    by auto
  from rs each show "\<forall>r\<in>set (offendingDockerImages c'). r \<in> set (offendingDockerImages c) \<or> matchFound r"
    by auto
next
  assume "offendingDockerImages c = []"
  then show "outputOffendingImages e c w = (None, w\<lparr>stdout := stdout w @ [NoImagesMatched]\<rparr>)"
    by (simp add: outputOffendingImages_def printLine_def)
next
  let ?path = "offendingImageResultsPath e c"
  assume a: "offendingDockerImages c \<noteq> [] \<and> OpenFile e ?path = None \<and> (\<forall>k. WriteError e k = None)"
  then have wr: "\<forall>k. WriteError e k = None"
    by simp
  obtain err1 w2 where run: "offendingLoop e c ?path (offendingDockerImages c) (openAppend ?path w) = (err1, w2)"
    by (cases "offendingLoop e c ?path (offendingDockerImages c) (openAppend ?path w)")
  with offendingLoop_ok [OF wr files_openAppend, of c ?path "offendingDockerImages c" w]
  have err1: "err1 = None"
    and app: "appended (openAppend ?path w) ?path
                (concat (map (offendingLine e c) (offendingDockerImages c))) w2"
    by simp_all
  have "outputOffendingImages e c w = (None, w2)"
    using a run err1 by (simp add: outputOffendingImages_def)
  moreover have "files w2 ?path =
      Some (fileContent w ?path @ concat (map (offendingLine e c) (offendingDockerImages c)))"
    using app by (simp add: appended_def fileContent_openAppend)
  moreover have "stdout w2 = stdout w"
    using app by (simp add: appended_def openAppend_def)
  ultimately show "\<exists>w2. outputOffendingImages e c w = (None, w2)
            \<and> files w2 ?path =
                Some (fileContent w ?path @ concat (map (offendingLine e c) (offendingDockerImages c)))
            \<and> stdout w2 = stdout w"
    by blast
qed

lemma pullImage_nginx:
  "pullImage pullEnv jdkConfig ''nginx:1.25'' w =
     Some (None, w\<lparr>pullCalls := pullCalls w @ [(''nginx:1.25'', [])]\<rparr>)"
proof -
  have s: "ImagePull pullEnv ''nginx:1.25'' [] = Inr [DecObject pullingEvent, DecObject downloadedEvent]"
    by (simp add: pullEnv_def)
  have t: "\<not> terminalStatus (Status (decodeInto pullingEvent None))"
    "terminalStatus (Status (decodeInto downloadedEvent (Some (decodeInto pullingEvent None))))"
    by (simp_all add: Status_decodeInto pullingEvent_def downloadedEvent_def terminalStatus_def)
  have "pullLoop (Now pullEnv ''nginx:1.25'') (Now pullEnv ''nginx:1.25'' 0 + tenMinutes) ''nginx:1.25'' 1
          [DecObject pullingEvent, DecObject downloadedEvent] None = Some None"
    using t intime_pullEnv [of "Suc 0" "''nginx:1.25''"] intime_pullEnv [of "Suc (Suc 0)" "''nginx:1.25''"]
    by (simp add: pullLoop_object)
  from pullImage_loop [OF pullOptions_plain(1) s this] show ?thesis .
qed

lemma imagesLoop_nginx:
  "imagesLoop pullEnv 1 1 [''nginx:1.25''] jdkConfig noWorld = Some (None, jdkConfig, nginxWorld)"
proof -
  have h: "ImageHistory pullEnv ''nginx:1.25'' = Inr []"
    by (simp add: pullEnv_def quietEnv_def)
  have r: "ImageRemove pullEnv ''nginx:1.25'' = None"
    by (simp add: pullEnv_def quietEnv_def)
  show ?thesis
    by (simp add: pullImage_nginx checkImageHistoryForKeyWords_def h cleanupImage_def r
        printLine_def noWorld_def nginxWorld_def)
qed

theorem match_report_only_for_matches_witness:
  "(\<exists>r w1. checkImageHistoryForKeyWords pullEnv jdkConfig ''nginx:1.25'' noWorld = (Inr r, w1)
        \<and> \<not> matchFound r)
   \<and> imagesLoop pullEnv 1 1 [''nginx:1.25''] jdkConfig noWorld = Some (None, jdkConfig, nginxWorld)
   \<and> ''nginx:1.25'' \<notin> imageRef ` set (offendingDockerImages jdkConfig)
   \<and> outputOffendingImages pullEnv jdkConfig noWorld = (None, noWorld\<lparr>stdout := [NoImagesMatched]\<rparr>)
   \<and> files (snd (outputOffendingImages pullEnv jdkConfig noWorld)) = Map.empty
   \<and> (\<exists>w2. outputOffendingImages matchEnv matchedConfig noWorld = (None, w2)
         \<and> files w2 ''offending-images-prod-cluster-1-Nov-2026-06:00.txt'' =
             Some (''registry.example/app:1'' @ [CHR 0x09]
                   @ ''(podName: web-1, containerName: app, namespace: shop, ''
                   @ ''matched-keywords: map[jdk-14:3]) '' @ [CHR 0x0A])
         \<and> stdout w2 = [])"
proof -
  have h: "ImageHistory pullEnv ''nginx:1.25'' = Inr []"
    by (simp add: pullEnv_def quietEnv_def)
  have nm: "\<not> hasMatch pullEnv (dockerImageKeyWords jdkConfig) ''nginx:1.25''"
    by (simp add: hasMatch_def h)
  have off: "offendingDockerImages jdkConfig = []"
    by (simp add: jdkConfig_def)
  note A = match_report_only_for_matches
    [where e = pullEnv and c = jdkConfig and w = noWorld and ref = "''nginx:1.25''" and hs = "[]"
      and n = 1 and count = 1 and imgs = "[''nginx:1.25'']" and err = None and c' = jdkConfig
      and w' = nginxWorld]
  have a1: "\<exists>r w1. checkImageHistoryForKeyWords pullEnv jdkConfig ''nginx:1.25'' noWorld = (Inr r, w1)
        \<and> \<not> matchFound r"
    using A h nm by blast
  have a2: "''nginx:1.25'' \<notin> imageRef ` set (offendingDockerImages jdkConfig)"
    using A imagesLoop_nginx nm off by simp
  have a3: "outputOffendingImages pullEnv jdkConfig noWorld = (None, noWorld\<lparr>stdout := [NoImagesMatched]\<rparr>)"
    using A off by (simp add: noWorld_def)
  have a4: "files (snd (outputOffendingImages pullEnv jdkConfig noWorld)) = Map.empty"
    unfolding a3 by (simp add: noWorld_def)
  have p: "offendingImageResultsPath matchEnv matchedConfig = ''offending-images-prod-cluster-1-Nov-2026-06:00.txt''"
    by (simp add: offendingImageResultsPath_def matchEnv_def quietEnv_def matchedConfig_def jdkConfig_def)
  have o: "OpenFile matchEnv (offendingImageResultsPath matchEnv matchedConfig) = None"
    by (simp add: matchEnv_def quietEnv_def)
  have wr: "\<forall>k. WriteError matchEnv k = None"
    by (simp add: matchEnv_def quietEnv_def)
  have ne: "offendingDockerImages matchedConfig \<noteq> []"
    by (simp add: matchedConfig_def)
  have l: "concat (map (offendingLine matchEnv matchedConfig) (offendingDockerImages matchedConfig)) =
      ''registry.example/app:1'' @ [CHR 0x09]
        @ ''(podName: web-1, containerName: app, namespace: shop, ''
        @ ''matched-keywords: map[jdk-14:3]) '' @ [CHR 0x0A]"
    by (simp add: offendingLine_def offendingPieces_def offendingDetail_def matchedConfig_def
        jdkResult_def matchEnv_def quietEnv_def lookupCount_def)
  have f: "fileContent noWorld q = []" for q
    by (simp add: fileContent_def noWorld_def)
  have s0: "stdout noWorld = []"
    by (simp add: noWorld_def)
  from match_report_only_for_matches [where e = matchEnv and c = matchedConfig and w = noWorld] ne o wr
  obtain w2 where "outputOffendingImages matchEnv matchedConfig noWorld = (None, w2)"
    and "files w2 (offendingImageResultsPath matchEnv matchedConfig) =
      Some (fileContent noWorld (offendingImageResultsPath matchEnv matchedConfig)
            @ concat (map (offendingLine matchEnv matchedConfig) (offendingDockerImages matchedConfig)))"
    and "stdout w2 = stdout noWorld"
    by blast
  then have a5: "\<exists>w2. outputOffendingImages matchEnv matchedConfig noWorld = (None, w2)
         \<and> files w2 ''offending-images-prod-cluster-1-Nov-2026-06:00.txt'' =
             Some (''registry.example/app:1'' @ [CHR 0x09]
                   @ ''(podName: web-1, containerName: app, namespace: shop, ''
                   @ ''matched-keywords: map[jdk-14:3]) '' @ [CHR 0x0A])
         \<and> stdout w2 = []"
    unfolding l f p s0 by simp
  from a1 imagesLoop_nginx a2 a3 a4 a5 show ?thesis
    by blast
qed

subsection \<open>The credentials\<close>

lemma Split_no_sep: "sep \<notin> set s \<Longrightarrow> Split s sep = [s]"
  by (induction s) auto

lemma Split_with_sep: "sep \<in> set s \<Longrightarrow> \<exists>a b rest. Split s sep = a # b # rest"
proof -
  assume "sep \<in> set s"
  then have "0 < count_list s sep"
    using count_list_0_iff [of s sep] by auto
  then have "2 \<le> length (Split s sep)"
    by (simp add: Split_length)
  then show ?thesis
    by (cases "Split s sep") (auto simp: Suc_le_length_iff)
qed

lemma credentialLoop_Cons:
  "credentialLoop e profile (region # rs) creds =
     (case regionCredential e profile region of
        Inl err \<Rightarrow> Inl err
      | Inr blob \<Rightarrow> credentialLoop e profile rs (creds(region \<mapsto> blob)))"
  by simp

lemma credentialLoop_Inr:
  assumes "credentialLoop e profile rs creds = Inr creds'"
  shows "dom creds' = dom creds \<union> set rs
         \<and> (\<forall>region\<in>set rs. regionCredential e profile region = Inr (the (creds' region)))
         \<and> (\<forall>region. region \<notin> set rs \<longrightarrow> creds' region = creds region)"
  using assms
proof (induction rs arbitrary: creds)
  case Nil
  then show ?case by simp
next
  case (Cons region rs)
  from Cons.prems obtain blob where blob: "regionCredential e profile region = Inr blob"
    and rest: "credentialLoop e profile rs (creds(region \<mapsto> blob)) = Inr creds'"
    by (auto simp: credentialLoop_Cons split: sum.splits)
  from Cons.IH [OF rest]
  have d: "dom creds' = dom (creds(region \<mapsto> blob)) \<union> set rs"
    and v: "\<forall>r\<in>set rs. regionCredential e profile r = Inr (the (creds' r))"
    and o: "\<forall>r. r \<notin> set rs \<longrightarrow> creds' r = (creds(region \<mapsto> blob)) r"
    by blast+
  have "regionCredential e profile region = Inr (the (creds' region))"
  proof (cases "region \<in> set rs")
    case True
    with v show ?thesis by blast
  next
    case False
    with o have "creds' region = Some blob" by simp
    with blob show ?thesis by simp
  qed
  with d v o show ?case
    by auto
qed

lemma credentialLoop_succeeds:
  assumes "\<forall>region\<in>set rs. \<exists>blob. regionCredential e profile region = Inr blob"
  shows "\<exists>creds'. credentialLoop e profile rs creds = Inr creds'"
  using assms
proof (induction rs arbitrary: creds)
  case Nil
  then show ?case by simp
next
  case (Cons region rs)
  then obtain blob where "regionCredential e profile region = Inr blob"
    by auto
  with Cons show ?case
    by (simp add: credentialLoop_Cons)
qed

lemma credentialLoop_prefix:
  assumes "\<forall>r\<in>set pre. \<exists>blob. regionCredential e profile r = Inr blob"
    and "regionCredential e profile region = Inl err"
  shows "credentialLoop e profile (pre @ region # post) creds = Inl err"
  using assms(1)
proof (induction pre arbitrary: creds)
  case Nil
  then show ?case by (simp add: credentialLoop_Cons assms(2))
next
  case (Cons r pre)
  then obtain blob where "regionCredential e profile r = Inr blob"
    by auto
  with Cons show ?case
    by (simp add: credentialLoop_Cons)
qed

lemma credentialLoop_Inl:
  assumes "credentialLoop e profile rs creds = Inl err"
  shows "\<exists>region\<in>set rs. regionCredential e profile region = Inl err"
  using assms
proof (induction rs arbitrary: creds)
  case Nil
  then show ?case by simp
next
  case (Cons region rs)
  then show ?case
    by (cases "regionCredential e profile region") (auto simp: credentialLoop_Cons)
qed

lemma regionCredential_no_colon:
  assumes "fetchedToken e profile region = Some decoded"
  shows "regionCredential e profile region = Inl (PanicIndexOutOfRange 1 n)
           \<longleftrightarrow> n = 1 \<and> CHR '':'' \<notin> set decoded"
proof (cases "CHR '':'' \<in> set decoded")
  case True
  from Split_with_sep [OF this] obtain a b rest where "Split decoded CHR '':'' = a # b # rest"
    by blast
  with assms True show ?thesis
    by (auto simp: regionCredential_def fetchedToken_def split: option.splits sum.splits list.splits)
next
  case False
  then have "Split decoded CHR '':'' = [decoded]"
    by (rule Split_no_sep)
  with assms False show ?thesis
    by (auto simp: regionCredential_def fetchedToken_def split: option.splits sum.splits list.splits)
qed

lemma regionCredential_index_panic:
  assumes "regionCredential e profile region = Inl (PanicIndexOutOfRange 1 n)"
  shows "\<exists>decoded. fetchedToken e profile region = Some decoded"
  using assms
  by (auto simp: regionCredential_def fetchedToken_def split: option.splits sum.splits list.splits)

lemma regionCredential_Inr:
  assumes "regionCredential e profile region = Inr blob"
  shows "\<exists>decoded. fetchedToken e profile region = Some decoded \<and> CHR '':'' \<in> set decoded"
proof -
  from assms obtain decoded where d: "fetchedToken e profile region = Some decoded"
    by (auto simp: regionCredential_def fetchedToken_def split: option.splits sum.splits list.splits)
  have "CHR '':'' \<in> set decoded"
  proof (rule ccontr)
    assume "CHR '':'' \<notin> set decoded"
    with regionCredential_no_colon [OF d, of 1] assms show False
      by simp
  qed
  with d show ?thesis by blast
qed

lemma NewConfig_Inr:
  assumes "NewConfig e kws ctx profile regions = Inr cfg"
  shows "credentialLoop e profile regions Map.empty = Inr (ecrCredentials cfg)" and "ecrRegions cfg = regions"
  using assms by (auto simp: NewConfig_def split: sum.splits option.splits)

lemma ProcessAll_config:
  assumes "ProcessAllImagesHistoryForKeywords e c w = Some (err, c', w')"
  shows "ecrCredentials c' = ecrCredentials c" and "ecrRegions c' = ecrRegions c"
    and "dockerImageKeyWords c' = dockerImageKeyWords c"
proof -
  obtain qerr c1 where q: "queryAllContainerImageRefsInCluster e c = (qerr, c1)"
    by (cases "queryAllContainerImageRefsInCluster e c")
  then have c1: "ecrCredentials c1 = ecrCredentials c \<and> ecrRegions c1 = ecrRegions c
      \<and> dockerImageKeyWords c1 = dockerImageKeyWords c"
    by (auto simp: queryAllContainerImageRefsInCluster_def split: sum.splits)
  show "ecrCredentials c' = ecrCredentials c" and "ecrRegions c' = ecrRegions c"
    and "dockerImageKeyWords c' = dockerImageKeyWords c"
  proof (atomize (full), cases qerr)
    case (Some er)
    with assms q c1 show "ecrCredentials c' = ecrCredentials c \<and> ecrRegions c' = ecrRegions c
        \<and> dockerImageKeyWords c' = dockerImageKeyWords c"
      by (auto simp: ProcessAllImagesHistoryForKeywords_def)
  next
    case None
    let ?imgs = "map fst (rangeMap (dockerImages c1) (RangeImages e))"
    from assms q None obtain lerr c2 w2 where
      l: "imagesLoop e (card (dom (dockerImages c1))) 1 ?imgs c1 w = Some (lerr, c2, w2)"
      and c2: "c' = c2"
      by (auto simp: ProcessAllImagesHistoryForKeywords_def split: option.splits prod.splits)
    from imagesLoop_offending [OF l] obtain rs where
      "c2 = c1\<lparr>offendingDockerImages := offendingDockerImages c1 @ rs\<rparr>"
      by blast
    with c1 c2 show "ecrCredentials c' = ecrCredentials c \<and> ecrRegions c' = ecrRegions c
        \<and> dockerImageKeyWords c' = dockerImageKeyWords c"
      by simp
  qed
qed

text \<open>
  C8. A configuration that \<open>NewConfig\<close> returns holds a credential for exactly the
  configured regions, at each region the login blob made from that region's token;
  \<open>NewConfig\<close> returns one when every region's turn ends in a blob (the token is
  fetched, decoded and re-encoded) and the clients are made; and a run of the pipeline
  leaves the credentials as they are.
\<close>

theorem NewConfig_credentials:
  "(NewConfig e kws ctx profile regions = Inr cfg
      \<longrightarrow> dom (ecrCredentials cfg) = set regions \<and> ecrRegions cfg = regions
        \<and> (\<forall>region\<in>set regions. \<exists>blob. regionCredential e profile region = Inr blob
               \<and> ecrCredentials cfg region = Some blob))
   \<and> ((\<forall>region\<in>set regions. \<exists>blob. regionCredential e profile region = Inr blob)
        \<and> NewDockerClient e = None \<and> BuildK8sConfig e ctx = None \<and> NewK8sClientSet e = None
      \<longrightarrow> (\<exists>cfg. NewConfig e kws ctx profile regions = Inr cfg))
   \<and> (ProcessAllImagesHistoryForKeywords e cfg w = Some (err, cfg', w')
      \<longrightarrow> ecrCredentials cfg' = ecrCredentials cfg)"
proof (intro conjI impI)
  assume a: "NewConfig e kws ctx profile regions = Inr cfg"
  from credentialLoop_Inr [OF NewConfig_Inr(1) [OF a]]
  have d: "dom (ecrCredentials cfg) = set regions"
    and v: "\<forall>region\<in>set regions. regionCredential e profile region = Inr (the (ecrCredentials cfg region))"
    by simp_all
  show "dom (ecrCredentials cfg) = set regions"
    by (rule d)
  show "ecrRegions cfg = regions"
    by (rule NewConfig_Inr(2) [OF a])
  show "\<forall>region\<in>set regions. \<exists>blob. regionCredential e profile region = Inr blob
               \<and> ecrCredentials cfg region = Some blob"
  proof
    fix region
    assume r: "region \<in> set regions"
    with d obtain blob where "ecrCredentials cfg region = Some blob"
      by auto
    with v r show "\<exists>blob. regionCredential e profile region = Inr blob
               \<and> ecrCredentials cfg region = Some blob"
      by auto
  qed
next
  assume a: "(\<forall>region\<in>set regions. \<exists>blob. regionCredential e profile region = Inr blob)
        \<and> NewDockerClient e = None \<and> BuildK8sConfig e ctx = None \<and> NewK8sClientSet e = None"
  then obtain creds where "credentialLoop e profile regions Map.empty = Inr creds"
    using credentialLoop_succeeds [of regions e profile Map.empty] by blast
  with a show "\<exists>cfg. NewConfig e kws ctx profile regions = Inr cfg"
    by (simp add: NewConfig_def)
next
  assume "ProcessAllImagesHistoryForKeywords e cfg w = Some (err, cfg', w')"
  then show "ecrCredentials cfg' = ecrCredentials cfg"
    by (rule ProcessAll_config(1))
qed

lemma regionCredential_quiet:
  "regionCredential quietEnv profile region = Inr ''base64(username=AWS;password=secret;)''"
  by (simp add: regionCredential_def quietEnv_def)

lemma NewConfig_quiet:
  "NewConfig quietEnv [''jdk-14''] ''prod-cluster'' ''production'' [''eu-west-1'', ''eu-west-2'']
     = Inr startedConfig"
proof -
  have "NewDockerClient quietEnv = None" "BuildK8sConfig quietEnv ''prod-cluster'' = None"
    "NewK8sClientSet quietEnv = None"
    by (simp_all add: quietEnv_def)
  then show ?thesis
    by (simp add: NewConfig_def regionCredential_quiet startedConfig_def)
qed

lemma ProcessAll_quiet:
  "\<exists>cfg' w'. ProcessAllImagesHistoryForKeywords quietEnv startedConfig noWorld = Some (None, cfg', w')"
  by (simp add: ProcessAllImagesHistoryForKeywords_def queryAllContainerImageRefsInCluster_def
      outputOffendingImages_def outputNonECRImages_def quietEnv_def startedConfig_def Let_def)

theorem NewConfig_credentials_witness:
  "NewConfig quietEnv [''jdk-14''] ''prod-cluster'' ''production'' [''eu-west-1'', ''eu-west-2'']
     = Inr startedConfig
   \<and> dom (ecrCredentials startedConfig) = {''eu-west-1'', ''eu-west-2''}
   \<and> (\<exists>cfg' w'. ProcessAllImagesHistoryForKeywords quietEnv startedConfig noWorld = Some (None, cfg', w')
         \<and> ecrCredentials cfg' = ecrCredentials startedConfig)"
proof -
  note A = NewConfig_credentials [where e = quietEnv and kws = "[''jdk-14'']"
      and ctx = "''prod-cluster''" and profile = "''production''"
      and regions = "[''eu-west-1'', ''eu-west-2'']" and cfg = startedConfig and w = noWorld]
  have d: "dom (ecrCredentials startedConfig) = {''eu-west-1'', ''eu-west-2''}"
    using A [where err = None] NewConfig_quiet by simp
  obtain cfg' w' where run: "ProcessAllImagesHistoryForKeywords quietEnv startedConfig noWorld = Some (None, cfg', w')"
    using ProcessAll_quiet by blast
  with A [where err = None and cfg' = cfg' and w' = w']
  have "ecrCredentials cfg' = ecrCredentials startedConfig"
    by simp
  with run d NewConfig_quiet show ?thesis
    by blast
qed

text \<open>
  C10. When the regions before some region each end in a blob and that region's
  token, fetched and decoded, has no colon, \<open>NewConfig\<close> ends in the panic of
  \<^verbatim>\<open>credentialsSlice[1]\<close> (index 1, length 1), not in an error value. The panic with
  index 1 has no other cause, and every region of a configuration that \<open>NewConfig\<close>
  returns has a decoded token with a colon in it.
\<close>

theorem NewConfig_token_without_colon:
  "(regions = pre @ region # post
      \<and> (\<forall>r\<in>set pre. \<exists>blob. regionCredential e profile r = Inr blob)
      \<and> fetchedToken e profile region = Some decoded \<and> CHR '':'' \<notin> set decoded
     \<longrightarrow> NewConfig e kws ctx profile regions = Inl (PanicIndexOutOfRange 1 1)
       \<and> isPanic (PanicIndexOutOfRange 1 1))
   \<and> (NewConfig e kws ctx profile regions = Inl (PanicIndexOutOfRange 1 n)
     \<longrightarrow> (\<exists>r\<in>set regions. \<exists>d. fetchedToken e profile r = Some d \<and> CHR '':'' \<notin> set d))
   \<and> (NewConfig e kws ctx profile regions = Inr cfg
     \<longrightarrow> (\<forall>r\<in>set regions. \<exists>d. fetchedToken e profile r = Some d \<and> CHR '':'' \<in> set d))"
proof (intro conjI impI)
  assume a: "regions = pre @ region # post
      \<and> (\<forall>r\<in>set pre. \<exists>blob. regionCredential e profile r = Inr blob)
      \<and> fetchedToken e profile region = Some decoded \<and> CHR '':'' \<notin> set decoded"
  then have "regionCredential e profile region = Inl (PanicIndexOutOfRange 1 1)"
    using regionCredential_no_colon [of e profile region decoded 1] by simp
  with a have "credentialLoop e profile regions Map.empty = Inl (PanicIndexOutOfRange 1 1)"
    using credentialLoop_prefix [of pre e profile region "PanicIndexOutOfRange 1 1" post Map.empty]
    by simp
  then show "NewConfig e kws ctx profile regions = Inl (PanicIndexOutOfRange 1 1)"
    by (simp add: NewConfig_def)
  show "isPanic (PanicIndexOutOfRange 1 1)"
    by simp
next
  assume "NewConfig e kws ctx profile regions = Inl (PanicIndexOutOfRange 1 n)"
  then have "credentialLoop e profile regions Map.empty = Inl (PanicIndexOutOfRange 1 n)"
    by (auto simp: NewConfig_def split: sum.splits option.splits)
  from credentialLoop_Inl [OF this] obtain r where r: "r \<in> set regions"
    and p: "regionCredential e profile r = Inl (PanicIndexOutOfRange 1 n)"
    by blast
  from regionCredential_index_panic [OF p] obtain d where d: "fetchedToken e profile r = Some d"
    by blast
  with regionCredential_no_colon [OF d, of n] p have "CHR '':'' \<notin> set d"
    by simp
  with r d show "\<exists>r\<in>set regions. \<exists>d. fetchedToken e profile r = Some d \<and> CHR '':'' \<notin> set d"
    by blast
next
  assume a: "NewConfig e kws ctx profile regions = Inr cfg"
  show "\<forall>r\<in>set regions. \<exists>d. fetchedToken e profile r = Some d \<and> CHR '':'' \<in> set d"
  proof
    fix r
    assume "r \<in> set regions"
    with credentialLoop_Inr [OF NewConfig_Inr(1) [OF a]]
    have "regionCredential e profile r = Inr (the (ecrCredentials cfg r))"
      by simp
    then show "\<exists>d. fetchedToken e profile r = Some d \<and> CHR '':'' \<in> set d"
      by (rule regionCredential_Inr)
  qed
qed

theorem NewConfig_token_without_colon_witness:
  "regionCredential bareTokenEnv ''production'' ''eu-west-1'' = Inr ''base64(username=AWS;password=secret;)''
   \<and> fetchedToken bareTokenEnv ''production'' ''eu-west-2'' = Some ''AWSsecret''
   \<and> NewConfig bareTokenEnv [''jdk-14''] ''prod-cluster'' ''production'' [''eu-west-1'', ''eu-west-2'']
       = Inl (PanicIndexOutOfRange 1 1)
   \<and> NewConfig quietEnv [''jdk-14''] ''prod-cluster'' ''production'' [''eu-west-1'', ''eu-west-2'']
       = Inr startedConfig
   \<and> (\<exists>d. fetchedToken quietEnv ''production'' ''eu-west-2'' = Some d \<and> CHR '':'' \<in> set d)"
proof -
  have one: "regionCredential bareTokenEnv ''production'' ''eu-west-1'' = Inr ''base64(username=AWS;password=secret;)''"
    by (simp add: regionCredential_def bareTokenEnv_def quietEnv_def)
  have two: "fetchedToken bareTokenEnv ''production'' ''eu-west-2'' = Some ''AWSsecret''"
    by (simp add: fetchedToken_def bareTokenEnv_def quietEnv_def)
  have "NewConfig bareTokenEnv [''jdk-14''] ''prod-cluster'' ''production'' [''eu-west-1'', ''eu-west-2'']
       = Inl (PanicIndexOutOfRange 1 1)"
    using NewConfig_token_without_colon [where regions = "[''eu-west-1'', ''eu-west-2'']"
        and pre = "[''eu-west-1'']" and region = "''eu-west-2''" and post = "[]"
        and e = bareTokenEnv and profile = "''production''" and decoded = "''AWSsecret''"
        and kws = "[''jdk-14'']" and ctx = "''prod-cluster''"] one two
    by simp
  moreover have "\<exists>d. fetchedToken quietEnv ''production'' ''eu-west-2'' = Some d \<and> CHR '':'' \<in> set d"
    using NewConfig_token_without_colon [where regions = "[''eu-west-1'', ''eu-west-2'']"
        and e = quietEnv and profile = "''production''" and kws = "[''jdk-14'']"
        and ctx = "''prod-cluster''" and cfg = startedConfig] NewConfig_quiet
    by simp
  ultimately show ?thesis
    using one two NewConfig_quiet by simp
qed

end
